theory Spec2Isabelle
  imports Main
begin

section \<open>Python values and the process state\<close>

text \<open>
  The program is a tkinter application (\<^verbatim>\<open>Youtube.py\<close>).  Its state is the tree of Tk
  widgets, the text printed so far, and the position of the random generator.  Strings are
  lists of characters; a character stands for a code point below 256.
\<close>

type_synonym wid = nat

text \<open>The values that the program passes as keyword options: strings (the constants
  \<^verbatim>\<open>tk.X\<close>, \<^verbatim>\<open>tk.LEFT\<close>, ... are strings), integers, booleans, tuples such as
  \<^verbatim>\<open>pady=(5, 0)\<close>, font triples and bound methods used as button commands.\<close>

datatype callback = Search | Submit_comment

datatype optval =
    Str string
  | Num int
  | Flag bool
  | Tuple int int
  | Font string int string
  | Command callback

type_synonym options = "(string \<times> optval) list"

definition tk_X :: optval where "tk_X = Str ''x''"
definition tk_Y :: optval where "tk_Y = Str ''y''"
definition tk_BOTH :: optval where "tk_BOTH = Str ''both''"
definition tk_LEFT :: optval where "tk_LEFT = Str ''left''"
definition tk_W :: optval where "tk_W = Str ''w''"
definition tk_RAISED :: optval where "tk_RAISED = Str ''raised''"
definition tk_SUNKEN :: optval where "tk_SUNKEN = Str ''sunken''"

datatype wclass = Frame | Label | Button | Entry | Text

datatype geometry = Unmanaged | Pack options | Grid int int options

text \<open>A widget of the store: its class, its master, the options it was created with, how
  it is placed in its master, whether it lets its children resize it, and (for an entry or a
  text box) the text the user has typed into it.\<close>

record widget =
  wclass :: wclass
  parent :: wid
  config :: options
  geometry :: geometry
  propagate :: bool
  content :: string

text \<open>The widgets alive, in creation order, under fresh identifiers.  The root window (the
  \<^verbatim>\<open>YouTubeApp\<close> object itself) is identifier 0; it is not an entry of the store and it
  is never destroyed.  \<open>stdout\<close> holds one string per \<^verbatim>\<open>print\<close> call, \<open>draws\<close> counts
  the calls of \<^verbatim>\<open>random.randint\<close>.\<close>

record world =
  widgets :: "(wid \<times> widget) list"
  next_id :: wid
  stdout :: "string list"
  draws :: nat
  wm_title :: string
  wm_geometry :: string

definition root :: wid where
  "root = 0"

definition fresh_world :: world where
  "fresh_world = \<lparr>widgets = [], next_id = 1, stdout = [], draws = 0,
     wm_title = [], wm_geometry = []\<rparr>"

subsection \<open>Statements that may raise\<close>

datatype error = AttributeError | TclError | ValueError

datatype 'a result = Return 'a | Raise error

type_synonym 'a action = "world \<Rightarrow> 'a result \<times> world"

definition return :: "'a \<Rightarrow> 'a action" where
  "return a s = (Return a, s)"

definition raise :: "error \<Rightarrow> 'a action" where
  "raise e s = (Raise e, s)"

text \<open>\<open>andthen m f\<close> runs \<open>m\<close> and then \<open>f\<close> on its value; an exception of \<open>m\<close> ends the
  run, with the state as \<open>m\<close> left it.\<close>

definition andthen :: "'a action \<Rightarrow> ('a \<Rightarrow> 'b action) \<Rightarrow> 'b action" where
  "andthen m f s =
     (case m s of
        (Return a, s') \<Rightarrow> f a s'
      | (Raise e, s') \<Rightarrow> (Raise e, s'))"

text \<open>A \<^verbatim>\<open>for\<close> loop over a list.\<close>

fun foreach :: "'a list \<Rightarrow> ('a \<Rightarrow> unit action) \<Rightarrow> unit action" where
  "foreach [] body = return ()"
| "foreach (x # xs) body = andthen (body x) (\<lambda>_. foreach xs body)"

text \<open>\<^verbatim>\<open>range(n)\<close>.\<close>

definition range :: "nat \<Rightarrow> int list" where
  "range n = map int [0..<n]"

text \<open>Reading an attribute of \<^verbatim>\<open>self\<close> that no assignment has created yet raises
  \<^verbatim>\<open>AttributeError\<close>.\<close>

fun attr :: "'a option \<Rightarrow> 'a action" where
  "attr None = raise AttributeError"
| "attr (Some x) = return x"

subsection \<open>Strings\<close>

definition digit :: "nat \<Rightarrow> char" where
  "digit d = ''0123456789'' ! d"

fun str_nat :: "nat \<Rightarrow> string" where
  "str_nat n = (if n < 10 then [digit n] else str_nat (n div 10) @ [digit (n mod 10)])"

declare str_nat.simps [simp del]

text \<open>The decimal text of an integer, as an f-string \<^verbatim>\<open>{n}\<close> formats it.\<close>

definition str_int :: "int \<Rightarrow> string" where
  "str_int i = (if i < 0 then CHR ''-'' # str_nat (nat (- i)) else str_nat (nat i))"

text \<open>\<^verbatim>\<open>str.isspace\<close> on the code points below 256: tab, line feed, vertical tab, form
  feed, carriage return, the four separators 28 to 31, space, NEL and the no-break space.\<close>

definition isspace :: "char \<Rightarrow> bool" where
  "isspace c = (of_char c \<in> set [9, 10, 11, 12, 13, 28, 29, 30, 31, 32, 133, 160 :: nat])"

text \<open>\<^verbatim>\<open>str.strip()\<close>: whitespace is removed at both ends.\<close>

definition strip :: "string \<Rightarrow> string" where
  "strip t = rev (dropWhile isspace (rev (dropWhile isspace t)))"

subsection \<open>The tkinter operations the program calls\<close>

definition lookup :: "world \<Rightarrow> wid \<Rightarrow> widget option" where
  "lookup s w = map_of (widgets s) w"

definition alive :: "world \<Rightarrow> wid \<Rightarrow> bool" where
  "alive s w = (w = root \<or> lookup s w \<noteq> None)"

definition children_of :: "world \<Rightarrow> wid \<Rightarrow> wid list" where
  "children_of s w = map fst (filter (\<lambda>(i, wd). parent wd = w) (widgets s))"

text \<open>Creating a widget under a master that no longer exists is an error of Tk.\<close>

definition new_widget :: "wclass \<Rightarrow> wid \<Rightarrow> options \<Rightarrow> wid action" where
  "new_widget cls p opts s =
     (if alive s p
      then (Return (next_id s),
            s\<lparr>widgets := widgets s @
                 [(next_id s, \<lparr>wclass = cls, parent = p, config = opts,
                     geometry = Unmanaged, propagate = True, content = []\<rparr>)],
              next_id := Suc (next_id s)\<rparr>)
      else (Raise TclError, s))"

definition tk_Frame :: "wid \<Rightarrow> options \<Rightarrow> wid action" where
  "tk_Frame = new_widget Frame"

definition tk_Label :: "wid \<Rightarrow> options \<Rightarrow> wid action" where
  "tk_Label = new_widget Label"

definition tk_Button :: "wid \<Rightarrow> options \<Rightarrow> wid action" where
  "tk_Button = new_widget Button"

definition tk_Entry :: "wid \<Rightarrow> options \<Rightarrow> wid action" where
  "tk_Entry = new_widget Entry"

definition tk_Text :: "wid \<Rightarrow> options \<Rightarrow> wid action" where
  "tk_Text = new_widget Text"

definition change :: "wid \<Rightarrow> (widget \<Rightarrow> widget) \<Rightarrow> (wid \<times> widget) list \<Rightarrow> (wid \<times> widget) list" where
  "change w f ws = map (\<lambda>(i, wd). if i = w then (i, f wd) else (i, wd)) ws"

definition modify :: "wid \<Rightarrow> (widget \<Rightarrow> widget) \<Rightarrow> unit action" where
  "modify w f s =
     (if lookup s w = None then (Raise TclError, s)
      else (Return (), s\<lparr>widgets := change w f (widgets s)\<rparr>))"

definition pack :: "wid \<Rightarrow> options \<Rightarrow> unit action" where
  "pack w opts = modify w (\<lambda>wd. wd\<lparr>geometry := Pack opts\<rparr>)"

text \<open>\<^verbatim>\<open>w.grid(row=i, column=j, ...)\<close>.\<close>

definition grid_at :: "wid \<Rightarrow> int \<Rightarrow> int \<Rightarrow> options \<Rightarrow> unit action" where
  "grid_at w i j opts = modify w (\<lambda>wd. wd\<lparr>geometry := Grid i j opts\<rparr>)"

definition pack_propagate :: "wid \<Rightarrow> bool \<Rightarrow> unit action" where
  "pack_propagate w flag = modify w (\<lambda>wd. wd\<lparr>propagate := flag\<rparr>)"

definition winfo_children :: "wid \<Rightarrow> wid list action" where
  "winfo_children w s =
     (if alive s w then (Return (children_of s w), s) else (Raise TclError, s))"

text \<open>\<open>is_under ws n a w\<close>: \<open>a\<close> is \<open>w\<close> or one of the first \<open>n\<close> ancestors of \<open>w\<close>.  A
  chain of masters inside a store of \<open>n\<close> widgets has at most \<open>n\<close> links.\<close>

fun is_under :: "(wid \<times> widget) list \<Rightarrow> nat \<Rightarrow> wid \<Rightarrow> wid \<Rightarrow> bool" where
  "is_under ws 0 a w = (w = a)"
| "is_under ws (Suc n) a w =
     (w = a \<or> (case map_of ws w of None \<Rightarrow> False | Some wd \<Rightarrow> is_under ws n a (parent wd)))"

text \<open>\<^verbatim>\<open>w.destroy()\<close> removes the widget with everything below it; on a widget that is
  gone already it does nothing.\<close>

definition destroy :: "wid \<Rightarrow> unit action" where
  "destroy a s =
     (Return (),
      s\<lparr>widgets :=
          filter (\<lambda>(w, wd). \<not> is_under (widgets s) (length (widgets s)) a w) (widgets s)\<rparr>)"

text \<open>\<^verbatim>\<open>entry.get()\<close>.\<close>

definition entry_get :: "wid \<Rightarrow> string action" where
  "entry_get w s =
     (case lookup s w of
        None \<Rightarrow> (Raise TclError, s)
      | Some wd \<Rightarrow> (Return (content wd), s))"

text \<open>\<^verbatim>\<open>text.get("1.0", tk.END)\<close>: the whole text, with the line feed that a Tk text
  widget keeps after its last line.\<close>

definition text_get_all :: "wid \<Rightarrow> string action" where
  "text_get_all w s =
     (case lookup s w of
        None \<Rightarrow> (Raise TclError, s)
      | Some wd \<Rightarrow> (Return (content wd @ [CHR 0x0A]), s))"

text \<open>\<^verbatim>\<open>text.delete("1.0", tk.END)\<close>.\<close>

definition text_delete_all :: "wid \<Rightarrow> unit action" where
  "text_delete_all w = modify w (\<lambda>wd. wd\<lparr>content := []\<rparr>)"

definition print :: "string \<Rightarrow> unit action" where
  "print line s = (Return (), s\<lparr>stdout := stdout s @ [line]\<rparr>)"

text \<open>\<^verbatim>\<open>random.randint(a, b)\<close>.  The generator is a parameter \<open>R\<close>: \<open>R k a b\<close> is what
  the \<open>k\<close>-th call returns when asked for a number between \<open>a\<close> and \<open>b\<close>.  The library
  promises \<open>a \<le> R k a b \<le> b\<close>; theorems that need the promise assume \<open>randint_spec R\<close>.\<close>

type_synonym generator = "nat \<Rightarrow> int \<Rightarrow> int \<Rightarrow> int"

definition randint :: "generator \<Rightarrow> int \<Rightarrow> int \<Rightarrow> int action" where
  "randint R a b s =
     (if b < a then (Raise ValueError, s)
      else (Return (R (draws s) a b), s\<lparr>draws := Suc (draws s)\<rparr>))"

definition randint_spec :: "generator \<Rightarrow> bool" where
  "randint_spec R = (\<forall>k a b. a \<le> b \<longrightarrow> a \<le> R k a b \<and> R k a b \<le> b)"

definition set_title :: "string \<Rightarrow> unit action" where
  "set_title t s = (Return (), s\<lparr>wm_title := t\<rparr>)"

definition set_geometry :: "string \<Rightarrow> unit action" where
  "set_geometry g s = (Return (), s\<lparr>wm_geometry := g\<rparr>)"

section \<open>The program\<close>

subsection \<open>\<^verbatim>\<open>UIComponent\<close> and \<^verbatim>\<open>log_action\<close>\<close>

record ui_component =
  master :: wid

definition UIComponent :: "wid \<Rightarrow> ui_component" where
  "UIComponent m = \<lparr>master = m\<rparr>"

definition UIComponent_create_widget :: "ui_component \<Rightarrow> ui_component action" where
  "UIComponent_create_widget self = return self"

text \<open>The decorator.  \<open>name\<close> is \<^verbatim>\<open>func.__name__\<close>; every decorated method takes
  \<^verbatim>\<open>self\<close> only.\<close>

definition log_action :: "string \<Rightarrow> ('self \<Rightarrow> 'r action) \<Rightarrow> 'self \<Rightarrow> 'r action" where
  "log_action name func self =
     andthen (print (''Action logged: '' @ name @ '' called'')) (\<lambda>_. func self)"

subsection \<open>\<^verbatim>\<open>Header\<close>\<close>

record header = ui_component +
  search_entry :: "wid option"

definition Header :: "wid \<Rightarrow> header" where
  "Header m = \<lparr>master = m, search_entry = None\<rparr>"

definition Header_create_widget :: "header \<Rightarrow> header action" where
  "Header_create_widget self =
     andthen (tk_Frame (master self) [(''bg'', Str ''red''), (''height'', Num 50)]) (\<lambda>header.
     andthen (pack header [(''fill'', tk_X)]) (\<lambda>_.
     andthen (tk_Label header [(''text'', Str ''YouTube''), (''fg'', Str ''white''),
                (''bg'', Str ''red''), (''font'', Font ''Arial'' 16 ''bold'')]) (\<lambda>logo.
     andthen (pack logo [(''side'', tk_LEFT), (''padx'', Num 10)]) (\<lambda>_.
     andthen (tk_Frame header [(''bg'', Str ''red'')]) (\<lambda>search_frame.
     andthen (pack search_frame [(''side'', tk_LEFT), (''expand'', Flag True),
                (''fill'', tk_X), (''padx'', Num 20)]) (\<lambda>_.
     andthen (tk_Entry search_frame [(''width'', Num 40)]) (\<lambda>entry.
     andthen (pack entry [(''side'', tk_LEFT), (''ipady'', Num 5)]) (\<lambda>_.
     andthen (tk_Button search_frame [(''text'', Str ''Search''),
                (''command'', Command Search)]) (\<lambda>search_button.
     andthen (pack search_button [(''side'', tk_LEFT), (''padx'', Num 5)]) (\<lambda>_.
     return (self\<lparr>search_entry := Some entry\<rparr>)))))))))))"

definition search_body :: "header \<Rightarrow> unit action" where
  "search_body self =
     andthen (attr (search_entry self)) (\<lambda>entry.
     andthen (entry_get entry) (\<lambda>query.
     print (''Searching for: '' @ query)))"

definition search :: "header \<Rightarrow> unit action" where
  "search = log_action ''search'' search_body"

subsection \<open>\<^verbatim>\<open>Sidebar\<close>\<close>

definition Sidebar :: "wid \<Rightarrow> ui_component" where
  "Sidebar m = UIComponent m"

definition Sidebar_create_widget :: "ui_component \<Rightarrow> ui_component action" where
  "Sidebar_create_widget self =
     andthen (tk_Frame (master self) [(''bg'', Str ''gray''), (''width'', Num 150)]) (\<lambda>sidebar.
     andthen (pack sidebar [(''side'', tk_LEFT), (''fill'', tk_Y)]) (\<lambda>_.
     andthen (foreach [''Home'', ''Trending'', ''Subscriptions'', ''Library''] (\<lambda>button.
       andthen (tk_Button sidebar [(''text'', Str button), (''width'', Num 15)]) (\<lambda>b.
       pack b [(''pady'', Num 5)]))) (\<lambda>_.
     return self)))"

subsection \<open>\<^verbatim>\<open>SearchableComponent\<close> and \<^verbatim>\<open>VideoGrid\<close>\<close>

definition search_videos :: "'self \<Rightarrow> string \<Rightarrow> unit action" where
  "search_videos self query = print (''Searching videos for query: '' @ query)"

record video_grid = ui_component +
  grid :: "wid option"

definition VideoGrid :: "wid \<Rightarrow> video_grid" where
  "VideoGrid m = \<lparr>master = m, grid = None\<rparr>"

text \<open>The body of the two nested loops of \<^verbatim>\<open>update_grid\<close>: one tile.\<close>

definition make_tile :: "generator \<Rightarrow> video_grid \<Rightarrow> int \<Rightarrow> int \<Rightarrow> unit action" where
  "make_tile R self i j =
     andthen (attr (grid self)) (\<lambda>g.
     andthen (tk_Frame g [(''width'', Num 200), (''height'', Num 150),
                (''bg'', Str ''lightgray''), (''bd'', Num 1), (''relief'', tk_RAISED)]) (\<lambda>frame.
     andthen (grid_at frame i j [(''padx'', Num 10), (''pady'', Num 10)]) (\<lambda>_.
     andthen (pack_propagate frame False) (\<lambda>_.
     andthen (tk_Label frame [(''bg'', Str ''gray''), (''width'', Num 180),
                (''height'', Num 100)]) (\<lambda>thumbnail.
     andthen (pack thumbnail [(''pady'', Tuple 5 0)]) (\<lambda>_.
     andthen (tk_Label frame [(''text'', Str (''Video '' @ str_int (i * 3 + j + 1))),
                (''wraplength'', Num 180)]) (\<lambda>title.
     andthen (pack title [(''pady'', Tuple 5 0)]) (\<lambda>_.
     andthen (randint R 100 1000000) (\<lambda>n.
     andthen (tk_Label frame [(''text'', Str (str_int n @ '' views'')),
                (''fg'', Str ''gray'')]) (\<lambda>views.
     pack views []))))))))))"

definition update_grid_body :: "generator \<Rightarrow> video_grid \<Rightarrow> unit action" where
  "update_grid_body R self =
     andthen (attr (grid self)) (\<lambda>g.
     andthen (winfo_children g) (\<lambda>children.
     andthen (foreach children destroy) (\<lambda>_.
     foreach (range 3) (\<lambda>i.
       foreach (range 3) (\<lambda>j.
         make_tile R self i j)))))"

definition update_grid :: "generator \<Rightarrow> video_grid \<Rightarrow> unit action" where
  "update_grid R = log_action ''update_grid'' (update_grid_body R)"

definition VideoGrid_create_widget :: "generator \<Rightarrow> video_grid \<Rightarrow> video_grid action" where
  "VideoGrid_create_widget R self =
     andthen (tk_Frame (master self) []) (\<lambda>g.
     andthen (pack g [(''expand'', Flag True), (''fill'', tk_BOTH)]) (\<lambda>_.
     andthen (update_grid R (self\<lparr>grid := Some g\<rparr>)) (\<lambda>_.
     return (self\<lparr>grid := Some g\<rparr>))))"

subsection \<open>\<^verbatim>\<open>VideoPlayer\<close>\<close>

definition VideoPlayer :: "wid \<Rightarrow> ui_component" where
  "VideoPlayer m = UIComponent m"

definition VideoPlayer_create_widget :: "ui_component \<Rightarrow> ui_component action" where
  "VideoPlayer_create_widget self =
     andthen (tk_Frame (master self) [(''bg'', Str ''black''), (''height'', Num 400)]) (\<lambda>player.
     andthen (pack player [(''fill'', tk_X), (''pady'', Num 10)]) (\<lambda>_.
     andthen (tk_Label player [(''bg'', Str ''gray''), (''text'', Str ''Video Player''),
                (''fg'', Str ''white''), (''font'', Font ''Arial'' 24 [])]) (\<lambda>video.
     andthen (pack video [(''expand'', Flag True), (''fill'', tk_BOTH)]) (\<lambda>_.
     andthen (tk_Frame player [(''bg'', Str ''lightgray''), (''height'', Num 30)]) (\<lambda>controls.
     andthen (pack controls [(''fill'', tk_X)]) (\<lambda>_.
     andthen (tk_Button controls [(''text'', Str ''Play'')]) (\<lambda>play_button.
     andthen (pack play_button [(''side'', tk_LEFT), (''padx'', Num 5)]) (\<lambda>_.
     andthen (tk_Button controls [(''text'', Str ''Pause'')]) (\<lambda>pause_button.
     andthen (pack pause_button [(''side'', tk_LEFT), (''padx'', Num 5)]) (\<lambda>_.
     return self))))))))))"

subsection \<open>\<^verbatim>\<open>Comments\<close>\<close>

record comments = ui_component +
  comment_entry :: "wid option"
  comments_list :: "wid option"

definition Comments :: "wid \<Rightarrow> comments" where
  "Comments m = \<lparr>master = m, comment_entry = None, comments_list = None\<rparr>"

definition add_comment :: "comments \<Rightarrow> string \<Rightarrow> string \<Rightarrow> unit action" where
  "add_comment self user text =
     andthen (attr (comments_list self)) (\<lambda>l.
     andthen (tk_Frame l [(''bg'', Str ''lightgray''), (''bd'', Num 1),
                (''relief'', tk_SUNKEN)]) (\<lambda>comment_frame.
     andthen (pack comment_frame [(''fill'', tk_X), (''pady'', Num 5)]) (\<lambda>_.
     andthen (tk_Label comment_frame [(''text'', Str user), (''font'', Font ''Arial'' 10 ''bold''),
                (''bg'', Str ''lightgray'')]) (\<lambda>user_label.
     andthen (pack user_label [(''anchor'', tk_W), (''padx'', Num 5), (''pady'', Tuple 5 0)]) (\<lambda>_.
     andthen (tk_Label comment_frame [(''text'', Str text), (''wraplength'', Num 400),
                (''justify'', tk_LEFT), (''bg'', Str ''lightgray'')]) (\<lambda>text_label.
     pack text_label [(''anchor'', tk_W), (''padx'', Num 5), (''pady'', Tuple 0 5)]))))))"

definition submit_comment_body :: "comments \<Rightarrow> unit action" where
  "submit_comment_body self =
     andthen (attr (comment_entry self)) (\<lambda>entry.
     andthen (text_get_all entry) (\<lambda>raw.
     let comment = strip raw in
     if comment \<noteq> [] then
       andthen (add_comment self ''You'' comment) (\<lambda>_.
       andthen (attr (comment_entry self)) (\<lambda>entry.
       text_delete_all entry))
     else return ()))"

definition submit_comment :: "comments \<Rightarrow> unit action" where
  "submit_comment = log_action ''submit_comment'' submit_comment_body"

definition Comments_create_widget :: "comments \<Rightarrow> comments action" where
  "Comments_create_widget self =
     andthen (tk_Frame (master self) []) (\<lambda>comments.
     andthen (pack comments [(''fill'', tk_BOTH), (''expand'', Flag True),
                (''pady'', Num 10)]) (\<lambda>_.
     andthen (tk_Label comments [(''text'', Str ''Comments''),
                (''font'', Font ''Arial'' 16 ''bold'')]) (\<lambda>heading.
     andthen (pack heading [(''anchor'', tk_W)]) (\<lambda>_.
     andthen (tk_Text comments [(''height'', Num 3)]) (\<lambda>entry.
     andthen (pack entry [(''fill'', tk_X), (''pady'', Num 5)]) (\<lambda>_.
     andthen (tk_Button comments [(''text'', Str ''Submit Comment''),
                (''command'', Command Submit_comment)]) (\<lambda>submit_button.
     andthen (pack submit_button [(''anchor'', tk_W)]) (\<lambda>_.
     andthen (tk_Frame comments []) (\<lambda>list.
     andthen (pack list [(''fill'', tk_BOTH), (''expand'', Flag True),
                (''pady'', Num 10)]) (\<lambda>_.
     andthen (add_comment (self\<lparr>comment_entry := Some entry, comments_list := Some list\<rparr>)
                ''User1'' ''Great video!'') (\<lambda>_.
     andthen (add_comment (self\<lparr>comment_entry := Some entry, comments_list := Some list\<rparr>)
                ''User2'' ''Very informative, thanks for sharing!'') (\<lambda>_.
     return (self\<lparr>comment_entry := Some entry, comments_list := Some list\<rparr>)))))))))))))"

subsection \<open>\<^verbatim>\<open>YouTubeApp\<close>\<close>

record youtube_app =
  app_header :: header
  app_sidebar :: ui_component
  app_video_grid :: video_grid
  app_video_player :: ui_component
  app_comments :: comments

definition create_ui :: "generator \<Rightarrow> youtube_app \<Rightarrow> youtube_app action" where
  "create_ui R self =
     andthen (Header_create_widget (app_header self)) (\<lambda>h.
     andthen (Sidebar_create_widget (app_sidebar self)) (\<lambda>sb.
     andthen (VideoGrid_create_widget R (app_video_grid self)) (\<lambda>vg.
     andthen (VideoPlayer_create_widget (app_video_player self)) (\<lambda>vp.
     andthen (Comments_create_widget (app_comments self)) (\<lambda>c.
     return \<lparr>app_header = h, app_sidebar = sb, app_video_grid = vg,
       app_video_player = vp, app_comments = c\<rparr>)))))"

definition YouTubeApp :: "generator \<Rightarrow> youtube_app action" where
  "YouTubeApp R =
     andthen (set_title ''YouTube-like Interface with OOP'') (\<lambda>_.
     andthen (set_geometry ''800x600'') (\<lambda>_.
     create_ui R \<lparr>app_header = Header root, app_sidebar = Sidebar root,
       app_video_grid = VideoGrid root, app_video_player = VideoPlayer root,
       app_comments = Comments root\<rparr>))"

section \<open>What the claims observe\<close>

text \<open>A store is well formed when identifiers are handed out in increasing order: every
  widget was created after its master and before the next free identifier.  Every operation
  of the program keeps a store well formed.\<close>

definition store_ok :: "world \<Rightarrow> bool" where
  "store_ok s = (0 < next_id s \<and> (\<forall>(i, wd) \<in> set (widgets s). parent wd < i \<and> i < next_id s))"

text \<open>The text a label shows: its \<^verbatim>\<open>text\<close> option, empty when none was given.\<close>

definition text_of :: "world \<Rightarrow> wid \<Rightarrow> string" where
  "text_of s w =
     (case lookup s w of
        None \<Rightarrow> []
      | Some wd \<Rightarrow> (case map_of (config wd) ''text'' of Some (Str t) \<Rightarrow> t | _ \<Rightarrow> []))"

text \<open>A tile of the video grid is a frame placed by \<^verbatim>\<open>grid\<close> that holds three labels:
  thumbnail, title and view count.\<close>

record video_tile =
  row :: int
  column :: int
  title :: string
  views :: string

definition tile_of :: "world \<Rightarrow> wid \<Rightarrow> video_tile option" where
  "tile_of s f =
     (case lookup s f of
        None \<Rightarrow> None
      | Some wd \<Rightarrow>
          (case (geometry wd, children_of s f) of
             (Grid i j opts, [thumbnail, t, v]) \<Rightarrow>
               Some \<lparr>row = i, column = j, title = text_of s t, views = text_of s v\<rparr>
           | _ \<Rightarrow> None))"

definition tiles :: "world \<Rightarrow> wid \<Rightarrow> video_tile option list" where
  "tiles s g = map (tile_of s) (children_of s g)"

text \<open>The grid position of a child of the grid frame.\<close>

definition position :: "world \<Rightarrow> wid \<Rightarrow> (int \<times> int) option" where
  "position s f =
     (case lookup s f of
        None \<Rightarrow> None
      | Some wd \<Rightarrow> (case geometry wd of Grid i j opts \<Rightarrow> Some (i, j) | _ \<Rightarrow> None))"

text \<open>A comment of the list is a frame that holds two labels: the author and the text (\<open>body\<close>).  The comment
  list of the panel is what its list container holds, in order.\<close>

record comment =
  author :: string
  body :: string

definition entry_of :: "world \<Rightarrow> wid \<Rightarrow> comment option" where
  "entry_of s f =
     (case children_of s f of
        [a, t] \<Rightarrow> Some \<lparr>author = text_of s a, body = text_of s t\<rparr>
      | _ \<Rightarrow> None)"

definition comment_list :: "world \<Rightarrow> wid \<Rightarrow> comment option list" where
  "comment_list s l = map (entry_of s) (children_of s l)"

text \<open>What an entry or a text box holds.\<close>

definition content_of :: "world \<Rightarrow> wid \<Rightarrow> string option" where
  "content_of s w = map_option content (lookup s w)"


section \<open>Auxiliary definitions\<close>

text \<open>Auxiliary notions for the proofs.  \<open>below n ws\<close>: every identifier of \<open>ws\<close> is
  smaller than \<open>n\<close>.\<close>

definition below :: "nat \<Rightarrow> (wid \<times> widget) list \<Rightarrow> bool" where
  "below n ws = (\<forall>(i, wd) \<in> set ws. i < n)"

text \<open>The three widgets that \<^verbatim>\<open>add_comment(user, txt)\<close> creates under the list \<open>l\<close>
  when \<open>n\<close> is the next free identifier.\<close>

definition comment_widgets :: "wid \<Rightarrow> wid \<Rightarrow> string \<Rightarrow> string \<Rightarrow> (wid \<times> widget) list" where
  "comment_widgets n l user txt =
     [(n, \<lparr>wclass = Frame, parent = l,
           config = [(''bg'', Str ''lightgray''), (''bd'', Num 1), (''relief'', tk_SUNKEN)],
           geometry = Pack [(''fill'', tk_X), (''pady'', Num 5)],
           propagate = True, content = []\<rparr>),
      (Suc n, \<lparr>wclass = Label, parent = n,
           config = [(''text'', Str user), (''font'', Font ''Arial'' 10 ''bold''),
                     (''bg'', Str ''lightgray'')],
           geometry = Pack [(''anchor'', tk_W), (''padx'', Num 5), (''pady'', Tuple 5 0)],
           propagate = True, content = []\<rparr>),
      (Suc (Suc n), \<lparr>wclass = Label, parent = n,
           config = [(''text'', Str txt), (''wraplength'', Num 400),
                     (''justify'', tk_LEFT), (''bg'', Str ''lightgray'')],
           geometry = Pack [(''anchor'', tk_W), (''padx'', Num 5), (''pady'', Tuple 0 5)],
           propagate = True, content = []\<rparr>)]"

text \<open>\<open>grown s xs s'\<close>: the store of \<open>s'\<close> is the store of \<open>s\<close> followed by new widgets
  \<open>xs\<close>.\<close>

definition grown :: "world \<Rightarrow> (wid \<times> widget) list \<Rightarrow> world \<Rightarrow> bool" where
  "grown s xs s' = (widgets s' = widgets s @ xs \<and> (\<forall>(i, wd) \<in> set xs. next_id s \<le> i))"

text \<open>What \<^verbatim>\<open>delete("1.0", tk.END)\<close> does to a widget.\<close>

definition clear :: "widget \<Rightarrow> widget" where
  "clear wd = wd\<lparr>content := []\<rparr>"

text \<open>The line that the decorator prints for \<^verbatim>\<open>submit_comment\<close>.\<close>

definition submit_line :: string where
  "submit_line = ''Action logged: submit_comment called''"

text \<open>The five widgets that \<^verbatim>\<open>Comments.create_widget\<close> creates under the master \<open>m\<close>
  before it adds the sample comments.\<close>

definition comments_widgets :: "wid \<Rightarrow> wid \<Rightarrow> (wid \<times> widget) list" where
  "comments_widgets n m =
     [(n, \<lparr>wclass = Frame, parent = m, config = [],
           geometry = Pack [(''fill'', tk_BOTH), (''expand'', Flag True), (''pady'', Num 10)],
           propagate = True, content = []\<rparr>),
      (n + 1, \<lparr>wclass = Label, parent = n,
           config = [(''text'', Str ''Comments''), (''font'', Font ''Arial'' 16 ''bold'')],
           geometry = Pack [(''anchor'', tk_W)], propagate = True, content = []\<rparr>),
      (n + 2, \<lparr>wclass = Text, parent = n, config = [(''height'', Num 3)],
           geometry = Pack [(''fill'', tk_X), (''pady'', Num 5)],
           propagate = True, content = []\<rparr>),
      (n + 3, \<lparr>wclass = Button, parent = n,
           config = [(''text'', Str ''Submit Comment''), (''command'', Command Submit_comment)],
           geometry = Pack [(''anchor'', tk_W)], propagate = True, content = []\<rparr>),
      (n + 4, \<lparr>wclass = Frame, parent = n, config = [],
           geometry = Pack [(''fill'', tk_BOTH), (''expand'', Flag True), (''pady'', Num 10)],
           propagate = True, content = []\<rparr>)]"

text \<open>The two sample comments.\<close>

definition seed1 :: comment where
  "seed1 = \<lparr>author = ''User1'', body = ''Great video!''\<rparr>"

definition seed2 :: comment where
  "seed2 = \<lparr>author = ''User2'', body = ''Very informative, thanks for sharing!''\<rparr>"

text \<open>The world after \<^verbatim>\<open>Comments.create_widget\<close>.\<close>

definition Comments_rendered :: "comments \<Rightarrow> world \<Rightarrow> world" where
  "Comments_rendered self s =
     s\<lparr>widgets := widgets s @ comments_widgets (next_id s) (master self)
            @ comment_widgets (next_id s + 5) (next_id s + 4) ''User1'' ''Great video!''
            @ comment_widgets (next_id s + 8) (next_id s + 4) ''User2''
                ''Very informative, thanks for sharing!'',
         next_id := next_id s + 11\<rparr>"

text \<open>The user's typing: the content of an entry or a text box is replaced.\<close>

definition type_text :: "wid \<Rightarrow> string \<Rightarrow> world \<Rightarrow> world" where
  "type_text e t s = s\<lparr>widgets := change e (\<lambda>wd. wd\<lparr>content := t\<rparr>) (widgets s)\<rparr>"

text \<open>How a widget is shown: its class and the way it is placed in its master.  A widget
  that was created but never packed or gridded is \<open>Unmanaged\<close> and is not displayed.\<close>

definition placed :: "world \<Rightarrow> wid \<Rightarrow> (wclass \<times> geometry) option" where
  "placed s w = map_option (\<lambda>wd. (wclass wd, geometry wd)) (lookup s w)"

text \<open>A freshly started comments panel, used for examples: the panel object and the world
  that \<^verbatim>\<open>Comments(root).create_widget()\<close> leaves when run in the fresh world.\<close>

definition demo_panel :: comments where
  "demo_panel = \<lparr>master = root, comment_entry = Some 3, comments_list = Some 5\<rparr>"

definition demo_world :: world where
  "demo_world = Comments_rendered (Comments root) fresh_world"

text \<open>The world once the decorator has printed its line for the method \<open>name\<close>.\<close>

definition logged :: "string \<Rightarrow> world \<Rightarrow> world" where
  "logged name s = s\<lparr>stdout := stdout s @ [''Action logged: '' @ name @ '' called'']\<rparr>"

text \<open>An action is quiet when it prints nothing, whether it returns or raises.\<close>

definition quiet :: "'a action \<Rightarrow> bool" where
  "quiet m = (\<forall>s. stdout (snd (m s)) = stdout s)"

text \<open>The widgets that \<^verbatim>\<open>Header.create_widget\<close>, \<^verbatim>\<open>Sidebar.create_widget\<close> and
  \<^verbatim>\<open>VideoPlayer.create_widget\<close> create under the master \<open>m\<close> when \<open>n\<close> is the next free
  identifier.\<close>

definition header_widgets :: "wid \<Rightarrow> wid \<Rightarrow> (wid \<times> widget) list" where
  "header_widgets n m =
     [(n, \<lparr>wclass = Frame, parent = m, config = [(''bg'', Str ''red''), (''height'', Num 50)],
           geometry = Pack [(''fill'', tk_X)], propagate = True, content = []\<rparr>),
      (n + 1, \<lparr>wclass = Label, parent = n,
           config = [(''text'', Str ''YouTube''), (''fg'', Str ''white''), (''bg'', Str ''red''),
                     (''font'', Font ''Arial'' 16 ''bold'')],
           geometry = Pack [(''side'', tk_LEFT), (''padx'', Num 10)],
           propagate = True, content = []\<rparr>),
      (n + 2, \<lparr>wclass = Frame, parent = n, config = [(''bg'', Str ''red'')],
           geometry = Pack [(''side'', tk_LEFT), (''expand'', Flag True), (''fill'', tk_X),
                            (''padx'', Num 20)],
           propagate = True, content = []\<rparr>),
      (n + 3, \<lparr>wclass = Entry, parent = n + 2, config = [(''width'', Num 40)],
           geometry = Pack [(''side'', tk_LEFT), (''ipady'', Num 5)],
           propagate = True, content = []\<rparr>),
      (n + 4, \<lparr>wclass = Button, parent = n + 2,
           config = [(''text'', Str ''Search''), (''command'', Command Search)],
           geometry = Pack [(''side'', tk_LEFT), (''padx'', Num 5)],
           propagate = True, content = []\<rparr>)]"

definition sidebar_button :: "wid \<Rightarrow> wid \<Rightarrow> string \<Rightarrow> wid \<times> widget" where
  "sidebar_button i p label =
     (i, \<lparr>wclass = Button, parent = p, config = [(''text'', Str label), (''width'', Num 15)],
          geometry = Pack [(''pady'', Num 5)], propagate = True, content = []\<rparr>)"

definition sidebar_widgets :: "wid \<Rightarrow> wid \<Rightarrow> (wid \<times> widget) list" where
  "sidebar_widgets n m =
     [(n, \<lparr>wclass = Frame, parent = m, config = [(''bg'', Str ''gray''), (''width'', Num 150)],
           geometry = Pack [(''side'', tk_LEFT), (''fill'', tk_Y)],
           propagate = True, content = []\<rparr>),
      sidebar_button (n + 1) n ''Home'',
      sidebar_button (n + 2) n ''Trending'',
      sidebar_button (n + 3) n ''Subscriptions'',
      sidebar_button (n + 4) n ''Library'']"

definition player_widgets :: "wid \<Rightarrow> wid \<Rightarrow> (wid \<times> widget) list" where
  "player_widgets n m =
     [(n, \<lparr>wclass = Frame, parent = m, config = [(''bg'', Str ''black''), (''height'', Num 400)],
           geometry = Pack [(''fill'', tk_X), (''pady'', Num 10)],
           propagate = True, content = []\<rparr>),
      (n + 1, \<lparr>wclass = Label, parent = n,
           config = [(''bg'', Str ''gray''), (''text'', Str ''Video Player''),
                     (''fg'', Str ''white''), (''font'', Font ''Arial'' 24 [])],
           geometry = Pack [(''expand'', Flag True), (''fill'', tk_BOTH)],
           propagate = True, content = []\<rparr>),
      (n + 2, \<lparr>wclass = Frame, parent = n,
           config = [(''bg'', Str ''lightgray''), (''height'', Num 30)],
           geometry = Pack [(''fill'', tk_X)], propagate = True, content = []\<rparr>),
      (n + 3, \<lparr>wclass = Button, parent = n + 2, config = [(''text'', Str ''Play'')],
           geometry = Pack [(''side'', tk_LEFT), (''padx'', Num 5)],
           propagate = True, content = []\<rparr>),
      (n + 4, \<lparr>wclass = Button, parent = n + 2, config = [(''text'', Str ''Pause'')],
           geometry = Pack [(''side'', tk_LEFT), (''padx'', Num 5)],
           propagate = True, content = []\<rparr>)]"

text \<open>Growing a world by new widgets \<open>xs\<close>, which take the next \<open>k\<close> identifiers.\<close>

definition grow :: "(wid \<times> widget) list \<Rightarrow> nat \<Rightarrow> world \<Rightarrow> world" where
  "grow xs k s = s\<lparr>widgets := widgets s @ xs, next_id := next_id s + k\<rparr>"

text \<open>A freshly started header, used for examples: the panel object and the world that
  \<^verbatim>\<open>Header(root).create_widget()\<close> leaves when run in the fresh world.\<close>

definition demo_header :: header where
  "demo_header = \<lparr>master = root, search_entry = Some 4\<rparr>"

definition demo_header_world :: world where
  "demo_header_world = grow (header_widgets 1 root) 5 fresh_world"

text \<open>The four widgets of one tile: frame, thumbnail, title and view count \<open>v\<close>.\<close>

definition tile_widgets :: "wid \<Rightarrow> wid \<Rightarrow> int \<Rightarrow> int \<Rightarrow> int \<Rightarrow> (wid \<times> widget) list" where
  "tile_widgets n g i j v =
     [(n, \<lparr>wclass = Frame, parent = g,
           config = [(''width'', Num 200), (''height'', Num 150), (''bg'', Str ''lightgray''),
                     (''bd'', Num 1), (''relief'', tk_RAISED)],
           geometry = Grid i j [(''padx'', Num 10), (''pady'', Num 10)],
           propagate = False, content = []\<rparr>),
      (n + 1, \<lparr>wclass = Label, parent = n,
           config = [(''bg'', Str ''gray''), (''width'', Num 180), (''height'', Num 100)],
           geometry = Pack [(''pady'', Tuple 5 0)], propagate = True, content = []\<rparr>),
      (n + 2, \<lparr>wclass = Label, parent = n,
           config = [(''text'', Str (''Video '' @ str_int (i * 3 + j + 1))),
                     (''wraplength'', Num 180)],
           geometry = Pack [(''pady'', Tuple 5 0)], propagate = True, content = []\<rparr>),
      (n + 3, \<lparr>wclass = Label, parent = n,
           config = [(''text'', Str (str_int v @ '' views'')), (''fg'', Str ''gray'')],
           geometry = Pack [], propagate = True, content = []\<rparr>)]"

text \<open>The widgets of the tiles for the cells \<open>ps\<close>, created one after the other from the
  identifier \<open>n\<close> and the \<open>d\<close>-th draw on.\<close>

fun tiles_from :: "generator \<Rightarrow> wid \<Rightarrow> nat \<Rightarrow> wid \<Rightarrow> (int \<times> int) list \<Rightarrow> (wid \<times> widget) list" where
  "tiles_from R g d n [] = []"
| "tiles_from R g d n ((i, j) # ps) =
     tile_widgets n g i j (R d 100 1000000) @ tiles_from R g (Suc d) (n + 4) ps"

text \<open>The cells of the grid in the order of the two loops.\<close>

definition cells :: "(int \<times> int) list" where
  "cells = List.product (range 3) (range 3)"

text \<open>\<open>m\<close> calls of \<^verbatim>\<open>update_grid\<close>, one after the other.\<close>

definition update_grid_times :: "nat \<Rightarrow> generator \<Rightarrow> video_grid \<Rightarrow> unit action" where
  "update_grid_times m R self = foreach (replicate m ()) (\<lambda>_. update_grid R self)"

text \<open>The grid frame that \<^verbatim>\<open>VideoGrid.create_widget\<close> creates under the master \<open>m\<close>.\<close>

definition grid_frame :: "wid \<Rightarrow> wid \<Rightarrow> wid \<times> widget" where
  "grid_frame n m =
     (n, \<lparr>wclass = Frame, parent = m, config = [],
          geometry = Pack [(''expand'', Flag True), (''fill'', tk_BOTH)],
          propagate = True, content = []\<rparr>)"

text \<open>A video grid whose frame exists and is still empty, used for examples: the state in
  which \<^verbatim>\<open>VideoGrid(root).create_widget()\<close>, run in the fresh world, calls
  \<^verbatim>\<open>update_grid\<close>.\<close>

definition demo_grid :: video_grid where
  "demo_grid = \<lparr>master = root, grid = Some 1\<rparr>"

definition demo_grid_world :: world where
  "demo_grid_world = grow [grid_frame 1 root] 1 fresh_world"

text \<open>A generator for examples: the \<open>k\<close>-th draw is \<open>a + k\<close>, capped at \<open>b\<close>.\<close>

definition demo_generator :: generator where
  "demo_generator k a b = min b (a + int k)"

text \<open>The world in which \<^verbatim>\<open>YouTubeApp.__init__\<close> calls \<^verbatim>\<open>create_ui\<close>: the root window has
  its title and size, no panel is rendered yet.\<close>

definition titled_world :: world where
  "titled_world = fresh_world\<lparr>wm_title := ''YouTube-like Interface with OOP'',
     wm_geometry := ''800x600''\<rparr>"




section \<open>Lemmas and theorems\<close>

lemma andthen_return [simp]: "andthen (return a) f = f a"
  by (rule ext) (simp add: andthen_def return_def)

lemma andthen_raise [simp]: "andthen (raise e) f = raise e"
  by (rule ext) (simp add: andthen_def raise_def)

lemma andthen_Return: "m s = (Return a, s') \<Longrightarrow> andthen m f s = f a s'"
  by (simp add: andthen_def)

lemma range3: "range 3 = [0, 1, 2]"
  by code_simp

lemma store_ok_below: "store_ok s \<Longrightarrow> below (next_id s) (widgets s)"
  by (auto simp: store_ok_def below_def)

lemma map_of_below: "below n ws \<Longrightarrow> n \<le> k \<Longrightarrow> map_of ws k = None"
  by (induction ws) (auto simp: below_def)

lemma change_below: "below n ws \<Longrightarrow> n \<le> k \<Longrightarrow> change k f ws = ws"
  by (induction ws) (auto simp: below_def change_def)

lemma change_append: "change k f (ws @ xs) = change k f ws @ change k f xs"
  by (simp add: change_def)

lemma change_Nil: "change k f [] = []"
  by (simp add: change_def)

lemma change_Cons:
  "change k f ((i, wd) # xs) = (if i = k then (i, f wd) else (i, wd)) # change k f xs"
  by (simp add: change_def)

lemmas store_simps = map_add_def map_of_below change_below change_append
  change_Nil change_Cons

lemma add_comment_run:
  assumes "below (next_id s) (widgets s)" "comments_list self = Some l" "alive s l"
  shows "add_comment self user txt s =
     (Return (), s\<lparr>widgets := widgets s @ comment_widgets (next_id s) l user txt,
                   next_id := next_id s + 3\<rparr>)"
  using assms
  by (simp add: add_comment_def tk_Frame_def tk_Label_def new_widget_def pack_def modify_def
      andthen_def lookup_def alive_def comment_widgets_def store_simps return_def)

lemma isspace_newline: "isspace (CHR 0x0A)"
  by (simp add: isspace_def)

lemma strip_newline: "strip (t @ [CHR 0x0A]) = strip t"
proof (cases "\<forall>c \<in> set t. isspace c")
  case True
  then have a: "dropWhile isspace (t @ [CHR 0x0A]) = []"
    using isspace_newline by (induction t) auto
  have b: "dropWhile isspace t = []"
    using True by (induction t) auto
  show ?thesis unfolding strip_def a b by simp
next
  case False
  then have "dropWhile isspace (t @ [CHR 0x0A]) = dropWhile isspace t @ [CHR 0x0A]"
    by (auto simp: dropWhile_append1)
  then show ?thesis using isspace_newline by (simp add: strip_def)
qed

lemma lookup_old:
  fixes xs :: "(wid \<times> widget) list"
  shows "\<forall>(i, wd) \<in> set xs. n \<le> i \<Longrightarrow> a < n \<Longrightarrow> map_of (ws @ xs) a = map_of ws a"
proof -
  assume h: "\<forall>(i, wd) \<in> set xs. n \<le> i" "a < n"
  have "a \<notin> fst ` set xs"
  proof
    assume "a \<in> fst ` set xs"
    then obtain wd where "(a, wd) \<in> set xs" by auto
    with h(1) have "n \<le> a" by blast
    with h(2) show False by simp
  qed
  then have "map_of xs a = None" by (simp add: map_of_eq_None_iff)
  then show ?thesis by (simp add: map_add_def split: option.split)
qed

lemma grown_lookup: "grown s xs s' \<Longrightarrow> a < next_id s \<Longrightarrow> lookup s' a = lookup s a"
  by (simp add: grown_def lookup_def lookup_old [where n = "next_id s"] del: map_of_append)

lemma grown_text_of: "grown s xs s' \<Longrightarrow> a < next_id s \<Longrightarrow> text_of s' a = text_of s a"
  by (simp add: text_of_def grown_lookup)

lemma grown_children:
  "grown s xs s' \<Longrightarrow>
   children_of s' w = children_of s w @ map fst (filter (\<lambda>(i, wd). parent wd = w) xs)"
  by (simp add: grown_def children_of_def)

lemma children_below: "below n (widgets s) \<Longrightarrow> a \<in> set (children_of s w) \<Longrightarrow> a < n"
  by (auto simp: below_def children_of_def)

lemma children_above: "store_ok s \<Longrightarrow> a \<in> set (children_of s w) \<Longrightarrow> w < a"
  by (auto simp: store_ok_def children_of_def)

lemma no_children_fresh: "store_ok s \<Longrightarrow> next_id s \<le> w \<Longrightarrow> children_of s w = []"
  by (auto simp: store_ok_def children_of_def filter_empty_conv)

lemma grown_entry_of:
  assumes "grown s xs s'" "below (next_id s) (widgets s)" "\<forall>(i, wd) \<in> set xs. parent wd \<noteq> f"
  shows "entry_of s' f = entry_of s f"
proof -
  have c: "children_of s' f = children_of s f"
    using assms(1,3) by (auto simp: grown_children filter_empty_conv)
  have "\<forall>a \<in> set (children_of s f). text_of s' a = text_of s a"
    using assms(1,2) by (auto intro: grown_text_of children_below)
  then show ?thesis
    by (auto simp: entry_of_def c split: list.splits)
qed

lemma alive_below: "store_ok s \<Longrightarrow> alive s l \<Longrightarrow> l < next_id s"
  by (auto simp: store_ok_def alive_def root_def lookup_def dest!: map_of_SomeD)

lemma comment_list_add:
  assumes "store_ok s" "alive s l"
    and s': "widgets s' = widgets s @ comment_widgets (next_id s) l u t"
  shows "comment_list s' l = comment_list s l @ [Some \<lparr>author = u, body = t\<rparr>]"
proof -
  let ?n = "next_id s"
  have g: "grown s (comment_widgets ?n l u t) s'"
    by (simp add: grown_def s' comment_widgets_def)
  have b: "below ?n (widgets s)" using assms(1) by (rule store_ok_below)
  have l: "l < ?n" using assms(1,2) by (rule alive_below)
  have ch: "children_of s' l = children_of s l @ [?n]"
    using l by (simp add: grown_children [OF g] comment_widgets_def)
  have old: "entry_of s' f = entry_of s f" if "f \<in> set (children_of s l)" for f
  proof (rule grown_entry_of [OF g b])
    have "l < f" "f < ?n"
      using that assms(1) b by (auto dest: children_above children_below)
    then show "\<forall>(i, wd) \<in> set (comment_widgets ?n l u t). parent wd \<noteq> f"
      by (simp add: comment_widgets_def)
  qed
  have chn: "children_of s' ?n = [Suc ?n, Suc (Suc ?n)]"
    using l by (simp add: grown_children [OF g] no_children_fresh [OF assms(1)]
        comment_widgets_def)
  have tx: "text_of s' (Suc ?n) = u" "text_of s' (Suc (Suc ?n)) = t"
    using store_ok_below [OF assms(1)]
    by (simp_all add: text_of_def lookup_def s' comment_widgets_def store_simps)
  have new: "entry_of s' ?n = Some \<lparr>author = u, body = t\<rparr>"
    by (simp add: entry_of_def chn tx)
  show ?thesis
    by (simp add: comment_list_def ch old new)
qed

lemma map_of_change:
  "map_of (change e f ws) a = map_option (\<lambda>wd. if a = e then f wd else wd) (map_of ws a)"
  by (induction ws) (auto simp: change_def)

lemma children_change:
  assumes "\<And>wd. parent (f wd) = parent wd" "widgets s' = change e f (widgets s)"
  shows "children_of s' w = children_of s w"
proof -
  have "map fst (filter (\<lambda>(i, wd). parent wd = w) (change e f ws))
      = map fst (filter (\<lambda>(i, wd). parent wd = w) ws)" for ws
    by (induction ws) (auto simp: change_def assms(1) split: if_splits)
  then show ?thesis by (simp add: children_of_def assms(2))
qed

lemma text_of_change:
  assumes "\<And>wd. config (f wd) = config wd" "widgets s' = change e f (widgets s)"
  shows "text_of s' a = text_of s a"
  by (cases "map_of (widgets s) a") (simp_all add: text_of_def lookup_def assms map_of_change)

lemma comment_list_clear:
  assumes "widgets s' = change e clear (widgets s)"
  shows "comment_list s' l = comment_list s l"
proof -
  have c: "children_of s' w = children_of s w" for w
    by (rule children_change [OF _ assms]) (simp add: clear_def)
  have t: "text_of s' a = text_of s a" for a
    by (rule text_of_change [OF _ assms]) (simp add: clear_def)
  show ?thesis by (simp add: comment_list_def entry_of_def c t cong: list.case_cong)
qed

lemma comment_list_cong: "widgets s' = widgets s \<Longrightarrow> comment_list s' l = comment_list s l"
  by (simp add: comment_list_def entry_of_def children_of_def text_of_def lookup_def
      cong: list.case_cong)

lemma add_comment_unset:
  "comments_list self = None \<Longrightarrow> add_comment self u t s = (Raise AttributeError, s)"
  by (simp add: add_comment_def raise_def)

lemma add_comment_dead:
  "comments_list self = Some l \<Longrightarrow> \<not> alive s l \<Longrightarrow>
   add_comment self u t s = (Raise TclError, s)"
  by (simp add: add_comment_def tk_Frame_def new_widget_def andthen_def)

lemma submit_comment_run:
  assumes "store_ok s"
  shows "submit_comment self s =
    (let s0 = s\<lparr>stdout := stdout s @ [submit_line]\<rparr> in
     case comment_entry self of
       None \<Rightarrow> (Raise AttributeError, s0)
     | Some e \<Rightarrow>
        (case lookup s e of
           None \<Rightarrow> (Raise TclError, s0)
         | Some wd \<Rightarrow>
            if strip (content wd) = [] then (Return (), s0)
            else (case comments_list self of
                    None \<Rightarrow> (Raise AttributeError, s0)
                  | Some l \<Rightarrow>
                     if alive s l
                     then (Return (),
                           s0\<lparr>widgets := change e clear
                                 (widgets s @ comment_widgets (next_id s) l ''You'' (strip (content wd))),
                               next_id := next_id s + 3\<rparr>)
                     else (Raise TclError, s0))))"
proof -
  let ?s0 = "s\<lparr>stdout := stdout s @ [submit_line]\<rparr>"
  have b: "below (next_id ?s0) (widgets ?s0)"
    using store_ok_below [OF assms] by simp
  have start: "submit_comment self s = submit_comment_body self ?s0"
    by (simp add: submit_comment_def log_action_def print_def andthen_def submit_line_def)
  show ?thesis
  proof (cases "comment_entry self")
    case None
    then show ?thesis
      by (simp add: start submit_comment_body_def raise_def)
  next
    case (Some e)
    show ?thesis
    proof (cases "lookup s e")
      case None
      then show ?thesis
        using Some
        by (simp add: start submit_comment_body_def andthen_def text_get_all_def lookup_def)
    next
      case wd: (Some wd)
      have get: "text_get_all e ?s0 = (Return (content wd @ [CHR 0x0A]), ?s0)"
        using wd by (simp add: text_get_all_def lookup_def)
      show ?thesis
      proof (cases "strip (content wd) = []")
        case True
        then show ?thesis
          using Some wd
          by (simp add: start submit_comment_body_def andthen_def get strip_newline
              return_def)
      next
        case False
        show ?thesis
        proof (cases "comments_list self")
          case None
          then show ?thesis
            using Some wd False
            by (simp add: start submit_comment_body_def andthen_def get strip_newline
                andthen_def add_comment_unset)
        next
          case l: (Some l)
          show ?thesis
          proof (cases "alive s l")
            case False
            then have "\<not> alive ?s0 l" by (simp add: alive_def lookup_def)
            then show ?thesis
              using Some wd \<open>strip (content wd) \<noteq> []\<close> l False
              by (simp add: start submit_comment_body_def andthen_def get strip_newline
                  andthen_def add_comment_dead [OF l])
          next
            case True
            then have a: "alive ?s0 l" by (simp add: alive_def lookup_def)
            have e: "map_of (widgets s) e = Some wd" using wd by (simp add: lookup_def)
            show ?thesis
              using Some wd \<open>strip (content wd) \<noteq> []\<close> l True
              by (simp add: start submit_comment_body_def andthen_def get strip_newline
                  andthen_def add_comment_run [OF b l a] text_delete_all_def modify_def
                  lookup_def e clear_def [abs_def])
          qed
        qed
      qed
    qed
  qed
qed

lemma submit_blank_run:
  assumes "comment_entry self = Some e" "content_of s e = Some t" "strip t = []"
  shows "submit_comment self s = (Return (), s\<lparr>stdout := stdout s @ [submit_line]\<rparr>)"
proof -
  obtain wd where wd: "map_of (widgets s) e = Some wd" "content wd = t"
    using assms(2) by (auto simp: content_of_def lookup_def)
  show ?thesis
    using assms(1,3) wd
    by (simp add: submit_comment_def log_action_def print_def andthen_def submit_line_def
        submit_comment_body_def text_get_all_def lookup_def strip_newline return_def)
qed

lemma below_append: "below n ws \<Longrightarrow> below m xs \<Longrightarrow> n \<le> m \<Longrightarrow> below m (ws @ xs)"
  by (auto simp: below_def)

lemma Comments_create_widget_run:
  assumes "below (next_id s) (widgets s)" "alive s (master self)"
  shows "Comments_create_widget self s =
     (Return (self\<lparr>comment_entry := Some (next_id s + 2), comments_list := Some (next_id s + 4)\<rparr>),
      s\<lparr>widgets := widgets s @ comments_widgets (next_id s) (master self)
            @ comment_widgets (next_id s + 5) (next_id s + 4) ''User1'' ''Great video!''
            @ comment_widgets (next_id s + 8) (next_id s + 4) ''User2''
                ''Very informative, thanks for sharing!'',
         next_id := next_id s + 11\<rparr>)"
  using assms
  by (simp add: Comments_create_widget_def add_comment_def tk_Frame_def tk_Label_def
      tk_Text_def tk_Button_def new_widget_def pack_def modify_def andthen_def lookup_def
      alive_def comments_widgets_def comment_widgets_def store_simps return_def)

lemma store_ok_grow:
  assumes "store_ok s" "next_id s \<le> m" "0 < m"
    and "\<forall>(i, wd) \<in> set xs. parent wd < i \<and> i < m"
  shows "store_ok (s\<lparr>widgets := widgets s @ xs, next_id := m\<rparr>)"
  using assms by (fastforce simp: store_ok_def)

lemma Comments_rendered_facts:
  assumes ok: "store_ok s" and m: "alive s (master self)"
  shows "store_ok (Comments_rendered self s)"
    and "alive (Comments_rendered self s) (next_id s + 4)"
    and "alive (Comments_rendered self s) (next_id s + 2)"
    and "comment_list (Comments_rendered self s) (next_id s + 4) = [Some seed1, Some seed2]"
    and "content_of (Comments_rendered self s) (next_id s + 2) = Some []"
proof -
  let ?n = "next_id s"
  let ?l = "?n + 4"
  have b: "below ?n (widgets s)" using ok by (rule store_ok_below)
  have ml: "master self < ?n" using ok m by (rule alive_below)
  let ?s1 = "s\<lparr>widgets := widgets s @ comments_widgets ?n (master self), next_id := ?n + 5\<rparr>"
  let ?s2 = "?s1\<lparr>widgets := widgets ?s1 @ comment_widgets (?n + 5) ?l ''User1'' ''Great video!'',
                   next_id := ?n + 8\<rparr>"
  have ok1: "store_ok ?s1"
    using ml by (intro store_ok_grow [OF ok]) (simp_all add: comments_widgets_def)
  have a1: "alive ?s1 ?l"
    using b by (simp add: alive_def lookup_def comments_widgets_def store_simps)
  have ok2: "store_ok ?s2"
    by (intro store_ok_grow [OF ok1]) (simp_all add: comment_widgets_def)
  have a2: "alive ?s2 ?l"
    using b by (simp add: alive_def lookup_def comments_widgets_def store_simps)
  have c0: "children_of s ?l = []"
    by (rule no_children_fresh [OF ok]) simp
  have c1: "comment_list ?s1 ?l = []"
    using ml c0 by (simp add: comment_list_def children_of_def comments_widgets_def)
  have c2: "comment_list ?s2 ?l = [Some seed1]"
    using comment_list_add [OF ok1 a1, of ?s2 "''User1''" "''Great video!''"]
    by (simp add: c1 seed1_def)
  have w: "widgets (Comments_rendered self s) = widgets ?s2 @ comment_widgets (next_id ?s2) ?l ''User2''
      ''Very informative, thanks for sharing!''"
    by (simp add: Comments_rendered_def)
  have "comment_list (Comments_rendered self s) ?l = comment_list ?s2 ?l
      @ [Some \<lparr>author = ''User2'', body = ''Very informative, thanks for sharing!''\<rparr>]"
    by (rule comment_list_add [OF ok2 a2 w])
  then show "comment_list (Comments_rendered self s) ?l = [Some seed1, Some seed2]"
    unfolding c2 by (simp add: seed2_def)
  have r: "Comments_rendered self s = ?s2\<lparr>widgets := widgets ?s2 @ comment_widgets (?n + 8) ?l ''User2''
      ''Very informative, thanks for sharing!'', next_id := ?n + 11\<rparr>"
    by (simp add: Comments_rendered_def)
  show "store_ok (Comments_rendered self s)"
    unfolding r by (intro store_ok_grow [OF ok2]) (simp_all add: comment_widgets_def)
  show "alive (Comments_rendered self s) ?l"
    using b by (simp add: Comments_rendered_def alive_def lookup_def comments_widgets_def store_simps)
  show "alive (Comments_rendered self s) (?n + 2)"
    using b by (simp add: Comments_rendered_def alive_def lookup_def comments_widgets_def store_simps)
  show "content_of (Comments_rendered self s) (?n + 2) = Some []"
    using b by (simp add: Comments_rendered_def content_of_def lookup_def comments_widgets_def store_simps)
qed

lemma Comments_create_widget_rendered:
  assumes "store_ok s" "alive s (master self)"
  shows "Comments_create_widget self s =
     (Return (self\<lparr>comment_entry := Some (next_id s + 2), comments_list := Some (next_id s + 4)\<rparr>),
      Comments_rendered self s)"
  using Comments_create_widget_run [OF store_ok_below [OF assms(1)] assms(2)]
  by (simp add: Comments_rendered_def)

lemma add_comment_appends:
  assumes "store_ok s" "comments_list self = Some l" "alive s l"
  shows "fst (add_comment self u t s) = Return ()"
    and "comment_list (snd (add_comment self u t s)) l
           = comment_list s l @ [Some \<lparr>author = u, body = t\<rparr>]"
    and "store_ok (snd (add_comment self u t s))"
proof -
  note run = add_comment_run [OF store_ok_below [OF assms(1)] assms(2,3), of u t]
  show "fst (add_comment self u t s) = Return ()" by (simp add: run)
  show "comment_list (snd (add_comment self u t s)) l
           = comment_list s l @ [Some \<lparr>author = u, body = t\<rparr>]"
    by (rule comment_list_add [OF assms(1,3)]) (simp add: run)
  have "l < next_id s" using assms(1,3) by (rule alive_below)
  then show "store_ok (snd (add_comment self u t s))"
    unfolding run snd_conv
    by (intro store_ok_grow [OF assms(1)]) (simp_all add: comment_widgets_def)
qed

lemma demo_render:
  "Comments_create_widget (Comments root) fresh_world = (Return demo_panel, demo_world)"
proof -
  have "store_ok fresh_world" "alive fresh_world (master (Comments root))"
    by (simp_all add: store_ok_def fresh_world_def alive_def Comments_def)
  from Comments_create_widget_rendered [OF this] show ?thesis
    by (simp add: demo_panel_def demo_world_def Comments_def fresh_world_def)
qed

lemmas demo_defs = demo_world_def Comments_rendered_def fresh_world_def comments_widgets_def
  comment_widgets_def type_text_def change_def Comments_def root_def

lemma demo_typed:
  "store_ok (type_text 3 t demo_world)"
  "alive (type_text 3 t demo_world) 5"
  "content_of (type_text 3 t demo_world) 3 = Some t"
  "comment_list (type_text 3 t demo_world) 5 = [Some seed1, Some seed2]"
     apply (simp add: store_ok_def demo_defs)
    apply (simp add: alive_def lookup_def demo_defs)
   apply (simp add: content_of_def lookup_def demo_defs)
  apply (simp add: comment_list_def entry_of_def children_of_def text_of_def lookup_def demo_defs
      seed1_def seed2_def)
  done

text \<open>Claim C2.  When the text of the input box, trimmed, is not empty, \<^verbatim>\<open>submit_comment\<close>
  returns normally, the comment list of the panel is the old list followed by exactly one new
  entry, author \<^verbatim>\<open>You\<close> and the trimmed text, and the input box is empty afterwards.  The
  visual block of the new entry is rendered: the list container has one more child, a frame
  that is packed; the frame holds two labels, both packed, which show \<^verbatim>\<open>You\<close> and the
  trimmed text.  \<open>t\<close> is what the box holds; the code strips \<open>t\<close> followed by the line
  feed of the widget, which is \<open>strip t\<close>.\<close>

theorem submit_comment_appends:
  assumes "store_ok s"
    and "comment_entry self = Some e" and "comments_list self = Some l"
    and "content_of s e = Some t" and "alive s l"
    and "strip t \<noteq> []"
  shows "fst (submit_comment self s) = Return ()
    \<and> comment_list (snd (submit_comment self s)) l
        = comment_list s l @ [Some \<lparr>author = ''You'', body = strip t\<rparr>]
    \<and> length (comment_list (snd (submit_comment self s)) l) = Suc (length (comment_list s l))
    \<and> content_of (snd (submit_comment self s)) e = Some []
    \<and> children_of (snd (submit_comment self s)) l = children_of s l @ [next_id s]
    \<and> placed (snd (submit_comment self s)) (next_id s)
        = Some (Frame, Pack [(''fill'', tk_X), (''pady'', Num 5)])
    \<and> children_of (snd (submit_comment self s)) (next_id s) = [next_id s + 1, next_id s + 2]
    \<and> placed (snd (submit_comment self s)) (next_id s + 1)
        = Some (Label, Pack [(''anchor'', tk_W), (''padx'', Num 5), (''pady'', Tuple 5 0)])
    \<and> placed (snd (submit_comment self s)) (next_id s + 2)
        = Some (Label, Pack [(''anchor'', tk_W), (''padx'', Num 5), (''pady'', Tuple 0 5)])
    \<and> text_of (snd (submit_comment self s)) (next_id s + 1) = ''You''
    \<and> text_of (snd (submit_comment self s)) (next_id s + 2) = strip t"
proof -
  let ?n = "next_id s"
  obtain wd where wd: "lookup s e = Some wd" "content wd = t"
    using assms(4) by (auto simp: content_of_def)
  let ?s0 = "s\<lparr>stdout := stdout s @ [submit_line]\<rparr>"
  let ?s1 = "?s0\<lparr>widgets := widgets s @ comment_widgets ?n l ''You'' (strip t),
                  next_id := ?n + 3\<rparr>"
  let ?s2 = "?s0\<lparr>widgets := change e clear
                     (widgets s @ comment_widgets ?n l ''You'' (strip t)),
                  next_id := ?n + 3\<rparr>"
  have run: "submit_comment self s = (Return (), ?s2)"
    using assms(2,3,5,6) wd by (simp add: submit_comment_run [OF assms(1)])
  have "comment_list ?s2 l = comment_list ?s1 l"
    by (rule comment_list_clear) simp
  also have "\<dots> = comment_list s l @ [Some \<lparr>author = ''You'', body = strip t\<rparr>]"
    by (rule comment_list_add [OF assms(1,5)]) simp
  finally have grow: "comment_list ?s2 l
      = comment_list s l @ [Some \<lparr>author = ''You'', body = strip t\<rparr>]" .
  have ewd: "map_of (widgets s) e = Some wd" using wd(1) by (simp add: lookup_def)
  then have box: "content_of ?s2 e = Some []"
    by (simp add: content_of_def lookup_def map_of_change map_add_def clear_def)
  have b: "below ?n (widgets s)" using assms(1) by (rule store_ok_below)
  have ln: "l < ?n" using assms(1,5) by (rule alive_below)
  have "(e, wd) \<in> set (widgets s)" using ewd by (rule map_of_SomeD)
  then have en: "e < ?n" using b by (auto simp: below_def)
  have g: "grown s (comment_widgets ?n l ''You'' (strip t)) ?s1"
    by (simp add: grown_def comment_widgets_def)
  have ch: "children_of ?s2 w = children_of ?s1 w" for w
    by (rule children_change [where f = clear and e = e]) (simp_all add: clear_def)
  have kids: "children_of ?s2 l = children_of s l @ [?n]"
    unfolding ch grown_children [OF g] using ln by (simp add: comment_widgets_def)
  have block: "children_of ?s2 ?n = [?n + 1, ?n + 2]"
    unfolding ch grown_children [OF g] no_children_fresh [OF assms(1) order_refl]
    using ln by (simp add: comment_widgets_def)
  have look: "lookup ?s2 k = map_of (comment_widgets ?n l ''You'' (strip t)) k"
    if "?n \<le> k" for k
    using that en map_of_below [OF b that]
    by (simp add: lookup_def map_of_change map_add_def option.map_ident)
  have p0: "placed ?s2 ?n = Some (Frame, Pack [(''fill'', tk_X), (''pady'', Num 5)])"
    by (simp only: placed_def look [OF order_refl]) (simp add: comment_widgets_def)
  have p1: "placed ?s2 (?n + 1)
      = Some (Label, Pack [(''anchor'', tk_W), (''padx'', Num 5), (''pady'', Tuple 5 0)])"
    by (simp only: placed_def look [OF le_add1]) (simp add: comment_widgets_def)
  have p2: "placed ?s2 (?n + 2)
      = Some (Label, Pack [(''anchor'', tk_W), (''padx'', Num 5), (''pady'', Tuple 0 5)])"
    by (simp only: placed_def look [OF le_add1]) (simp add: comment_widgets_def)
  have t1: "text_of ?s2 (?n + 1) = ''You''"
    by (simp only: text_of_def look [OF le_add1]) (simp add: comment_widgets_def)
  have t2: "text_of ?s2 (?n + 2) = strip t"
    by (simp only: text_of_def look [OF le_add1]) (simp add: comment_widgets_def)
  show ?thesis
    unfolding run fst_conv snd_conv grow box kids block p0 p1 p2 t1 t2 by simp
qed

text \<open>The instance of claim C2 in the specification: \<^verbatim>\<open>Nice!\<close> typed into the box of a
  freshly rendered panel.  The new block is the frame 12 with the labels 13 and 14.\<close>

theorem submit_comment_appends_witness:
  "store_ok (type_text 3 ''Nice!'' demo_world)
   \<and> comment_entry demo_panel = Some 3 \<and> comments_list demo_panel = Some 5
   \<and> content_of (type_text 3 ''Nice!'' demo_world) 3 = Some ''Nice!''
   \<and> alive (type_text 3 ''Nice!'' demo_world) 5
   \<and> strip ''Nice!'' \<noteq> []
   \<and> fst (submit_comment demo_panel (type_text 3 ''Nice!'' demo_world)) = Return ()
   \<and> comment_list (snd (submit_comment demo_panel (type_text 3 ''Nice!'' demo_world))) 5
       = [Some seed1, Some seed2, Some \<lparr>author = ''You'', body = ''Nice!''\<rparr>]
   \<and> content_of (snd (submit_comment demo_panel (type_text 3 ''Nice!'' demo_world))) 3 = Some []
   \<and> children_of (snd (submit_comment demo_panel (type_text 3 ''Nice!'' demo_world))) 5
       = [6, 9, 12]
   \<and> placed (snd (submit_comment demo_panel (type_text 3 ''Nice!'' demo_world))) 12
       = Some (Frame, Pack [(''fill'', tk_X), (''pady'', Num 5)])
   \<and> children_of (snd (submit_comment demo_panel (type_text 3 ''Nice!'' demo_world))) 12
       = [13, 14]
   \<and> placed (snd (submit_comment demo_panel (type_text 3 ''Nice!'' demo_world))) 13
       = Some (Label, Pack [(''anchor'', tk_W), (''padx'', Num 5), (''pady'', Tuple 5 0)])
   \<and> placed (snd (submit_comment demo_panel (type_text 3 ''Nice!'' demo_world))) 14
       = Some (Label, Pack [(''anchor'', tk_W), (''padx'', Num 5), (''pady'', Tuple 0 5)])
   \<and> text_of (snd (submit_comment demo_panel (type_text 3 ''Nice!'' demo_world))) 13 = ''You''
   \<and> text_of (snd (submit_comment demo_panel (type_text 3 ''Nice!'' demo_world))) 14 = ''Nice!''"
proof -
  have s: "strip ''Nice!'' = ''Nice!''"
    by (simp add: strip_def isspace_def)
  have p: "comment_entry demo_panel = Some 3" "comments_list demo_panel = Some 5"
    by (simp_all add: demo_panel_def)
  have n: "strip ''Nice!'' \<noteq> []" by (simp add: s)
  have i: "next_id (type_text 3 ''Nice!'' demo_world) = 12"
    by (simp add: demo_defs)
  have k: "children_of (type_text 3 ''Nice!'' demo_world) 5 = [6, 9]"
    by (simp add: children_of_def demo_defs)
  show ?thesis
    using submit_comment_appends [OF demo_typed(1) p demo_typed(3) demo_typed(2) n]
    by (simp add: demo_typed p s i k)
qed

text \<open>Claim C3.  When the text of the input box trims to the empty string,
  \<^verbatim>\<open>submit_comment\<close> returns normally (no error) and every comment list is what it was: no
  entry is added and the length is unchanged.\<close>

theorem submit_comment_blank_noop:
  assumes "comment_entry self = Some e" and "content_of s e = Some t" and "strip t = []"
  shows "fst (submit_comment self s) = Return ()
    \<and> (\<forall>l. comment_list (snd (submit_comment self s)) l = comment_list s l
          \<and> length (comment_list (snd (submit_comment self s)) l) = length (comment_list s l))"
proof -
  have "comment_list (s\<lparr>stdout := stdout s @ [submit_line]\<rparr>) l = comment_list s l" for l
    by (rule comment_list_cong) simp
  then show ?thesis
    by (simp add: submit_blank_run [OF assms])
qed

text \<open>The two inputs of claim C3 named in the specification: three spaces, and nothing.\<close>

theorem submit_comment_blank_noop_witness:
  "comment_entry demo_panel = Some 3
   \<and> content_of (type_text 3 ''   '' demo_world) 3 = Some ''   '' \<and> strip ''   '' = []
   \<and> content_of (type_text 3 [] demo_world) 3 = Some [] \<and> strip [] = []
   \<and> fst (submit_comment demo_panel (type_text 3 ''   '' demo_world)) = Return ()
   \<and> comment_list (snd (submit_comment demo_panel (type_text 3 ''   '' demo_world))) 5
       = [Some seed1, Some seed2]
   \<and> fst (submit_comment demo_panel (type_text 3 [] demo_world)) = Return ()
   \<and> comment_list (snd (submit_comment demo_panel (type_text 3 [] demo_world))) 5
       = [Some seed1, Some seed2]"
proof -
  have p: "comment_entry demo_panel = Some 3" by (simp add: demo_panel_def)
  have b: "strip ''   '' = []" "strip [] = []" by (simp_all add: strip_def isspace_def)
  show ?thesis
    using submit_comment_blank_noop [OF p demo_typed(3) b(1)]
      submit_comment_blank_noop [OF p demo_typed(3) b(2)]
    by (simp add: demo_typed p b)
qed

text \<open>Claim C9.  When the text of the input box trims to the empty string,
  \<^verbatim>\<open>submit_comment\<close> leaves the content of the box exactly as it was; no widget of the
  store changes.  (The box is cleared on the other branch only, see C2.)\<close>

theorem submit_comment_blank_keeps_input:
  assumes "comment_entry self = Some e" and "content_of s e = Some t" and "strip t = []"
  shows "content_of (snd (submit_comment self s)) e = Some t
    \<and> widgets (snd (submit_comment self s)) = widgets s"
  using assms(2) by (simp add: submit_blank_run [OF assms] content_of_def lookup_def)

text \<open>Three spaces stay three spaces.\<close>

theorem submit_comment_blank_keeps_input_witness:
  "comment_entry demo_panel = Some 3
   \<and> content_of (type_text 3 ''   '' demo_world) 3 = Some ''   '' \<and> strip ''   '' = []
   \<and> content_of (snd (submit_comment demo_panel (type_text 3 ''   '' demo_world))) 3 = Some ''   ''"
proof -
  have p: "comment_entry demo_panel = Some 3" by (simp add: demo_panel_def)
  have b: "strip ''   '' = []" by (simp add: strip_def isspace_def)
  show ?thesis
    using submit_comment_blank_keeps_input [OF p demo_typed(3) b]
    by (simp add: demo_typed p b)
qed

lemma add_comment_alive:
  assumes "store_ok s" "comments_list self = Some l" "alive s l" "alive s w"
  shows "alive (snd (add_comment self u t s)) w"
proof -
  note run = add_comment_run [OF store_ok_below [OF assms(1)] assms(2,3), of u t]
  show ?thesis
    using assms(4)
    by (auto simp: run alive_def lookup_def map_add_def split: option.splits)
qed

lemma add_comments_in_order:
  assumes "store_ok s" "comments_list self = Some l" "alive s l"
  shows "fst (foreach ps (\<lambda>(u, t). add_comment self u t) s) = Return ()
    \<and> comment_list (snd (foreach ps (\<lambda>(u, t). add_comment self u t) s)) l
        = comment_list s l @ map (\<lambda>(u, t). Some \<lparr>author = u, body = t\<rparr>) ps"
  using assms
proof (induction ps arbitrary: s)
  case Nil
  then show ?case by (simp add: return_def)
next
  case (Cons p ps)
  obtain u t where p: "p = (u, t)" by (cases p)
  obtain s1 where one: "add_comment self u t s = (Return (), s1)"
    using add_comment_appends(1) [OF Cons.prems, of u t]
    by (cases "add_comment self u t s") simp
  have s1: "s1 = snd (add_comment self u t s)" by (simp add: one)
  have ok1: "store_ok s1"
    unfolding s1 by (rule add_comment_appends(3) [OF Cons.prems])
  have al1: "alive s1 l"
    unfolding s1 by (rule add_comment_alive [OF Cons.prems Cons.prems(3)])
  have grow: "comment_list s1 l = comment_list s l @ [Some \<lparr>author = u, body = t\<rparr>]"
    unfolding s1 by (rule add_comment_appends(2) [OF Cons.prems])
  have step: "foreach (p # ps) (\<lambda>(u, t). add_comment self u t) s
      = foreach ps (\<lambda>(u, t). add_comment self u t) s1"
    by (simp add: p andthen_def one)
  show ?case
    unfolding step
    using Cons.IH [OF ok1 Cons.prems(2) al1]
    by (simp add: p grow)
qed

text \<open>Claim C4.  \<^verbatim>\<open>create_widget\<close> of the comments panel, run in a well-formed store under a
  live master, returns a panel whose comment list is exactly the two sample entries, in order.
  On that panel \<^verbatim>\<open>add_comment("Alice", "Hi")\<close> returns normally and the list becomes the two
  sample entries followed by Alice's entry.  The list only grows at its end: after any
  sequence of \<^verbatim>\<open>add_comment\<close> calls it is the two sample entries followed by the added
  entries in the order of the calls.\<close>

theorem add_comment_after_render:
  assumes "store_ok s" and "alive s (master self)"
  shows "\<exists>self' s' l.
      Comments_create_widget self s = (Return self', s')
    \<and> comments_list self' = Some l
    \<and> comment_list s' l = [Some seed1, Some seed2]
    \<and> fst (add_comment self' ''Alice'' ''Hi'' s') = Return ()
    \<and> comment_list (snd (add_comment self' ''Alice'' ''Hi'' s')) l
        = [Some seed1, Some seed2, Some \<lparr>author = ''Alice'', body = ''Hi''\<rparr>]
    \<and> (\<forall>ps. comment_list (snd (foreach ps (\<lambda>(u, t). add_comment self' u t) s')) l
          = [Some seed1, Some seed2] @ map (\<lambda>(u, t). Some \<lparr>author = u, body = t\<rparr>) ps)"
proof -
  let ?self = "self\<lparr>comment_entry := Some (next_id s + 2), comments_list := Some (next_id s + 4)\<rparr>"
  let ?s = "Comments_rendered self s"
  let ?l = "next_id s + 4"
  note r = Comments_rendered_facts [OF assms]
  have l: "comments_list ?self = Some ?l" by simp
  have "Comments_create_widget self s = (Return ?self, ?s)"
    by (rule Comments_create_widget_rendered [OF assms])
  moreover have "comment_list ?s ?l = [Some seed1, Some seed2]" by (rule r(4))
  moreover have "fst (add_comment ?self ''Alice'' ''Hi'' ?s) = Return ()"
    by (rule add_comment_appends(1) [OF r(1) l r(2)])
  moreover have "comment_list (snd (add_comment ?self ''Alice'' ''Hi'' ?s)) ?l
      = [Some seed1, Some seed2, Some \<lparr>author = ''Alice'', body = ''Hi''\<rparr>]"
    using add_comment_appends(2) [OF r(1) l r(2), of "''Alice''" "''Hi''"] by (simp add: r(4))
  moreover have "comment_list (snd (foreach ps (\<lambda>(u, t). add_comment ?self u t) ?s)) ?l
      = [Some seed1, Some seed2] @ map (\<lambda>(u, t). Some \<lparr>author = u, body = t\<rparr>) ps" for ps
    using add_comments_in_order [OF r(1) l r(2), of ps] by (simp add: r(4))
  ultimately show ?thesis using l by blast
qed

text \<open>Claim C4 at the start of the program: the fresh world, the panel as
  \<^verbatim>\<open>YouTubeApp\<close> constructs it.\<close>

theorem add_comment_after_render_witness:
  "store_ok fresh_world \<and> alive fresh_world (master (Comments root))
   \<and> (\<exists>self' s' l.
        Comments_create_widget (Comments root) fresh_world = (Return self', s')
      \<and> comments_list self' = Some l
      \<and> comment_list s' l = [Some seed1, Some seed2]
      \<and> fst (add_comment self' ''Alice'' ''Hi'' s') = Return ()
      \<and> comment_list (snd (add_comment self' ''Alice'' ''Hi'' s')) l
          = [Some seed1, Some seed2, Some \<lparr>author = ''Alice'', body = ''Hi''\<rparr>])"
proof -
  have h: "store_ok fresh_world" "alive fresh_world (master (Comments root))"
    by (simp_all add: store_ok_def fresh_world_def alive_def Comments_def)
  show ?thesis
    using add_comment_after_render [OF h] h by blast
qed

lemma log_action_logged: "log_action name func self s = func self (logged name s)"
  by (simp add: log_action_def print_def andthen_def logged_def)












lemma quiet_entry_get: "quiet (entry_get w)"
  by (simp add: quiet_def entry_get_def split: option.split)








lemma Header_create_widget_run:
  assumes "below (next_id s) (widgets s)" "alive s (master self)"
  shows "Header_create_widget self s =
     (Return (self\<lparr>search_entry := Some (next_id s + 3)\<rparr>),
      grow (header_widgets (next_id s) (master self)) 5 s)"
  using assms
  by (simp add: Header_create_widget_def tk_Frame_def tk_Label_def tk_Entry_def tk_Button_def
      new_widget_def pack_def modify_def andthen_def lookup_def alive_def header_widgets_def
      store_simps return_def grow_def)

lemma Sidebar_create_widget_run:
  assumes "below (next_id s) (widgets s)" "alive s (master self)"
  shows "Sidebar_create_widget self s =
     (Return self, grow (sidebar_widgets (next_id s) (master self)) 5 s)"
  using assms
  by (simp add: Sidebar_create_widget_def tk_Frame_def tk_Button_def
      new_widget_def pack_def modify_def andthen_def lookup_def alive_def sidebar_widgets_def
      sidebar_button_def store_simps return_def grow_def)

lemma VideoPlayer_create_widget_run:
  assumes "below (next_id s) (widgets s)" "alive s (master self)"
  shows "VideoPlayer_create_widget self s =
     (Return self, grow (player_widgets (next_id s) (master self)) 5 s)"
  using assms
  by (simp add: VideoPlayer_create_widget_def tk_Frame_def tk_Label_def tk_Button_def
      new_widget_def pack_def modify_def andthen_def lookup_def alive_def player_widgets_def
      store_simps return_def grow_def)


lemma demo_header_typed: "content_of (type_text 4 q demo_header_world) 4 = Some q"
  by (simp add: content_of_def lookup_def demo_header_world_def grow_def header_widgets_def
      fresh_world_def type_text_def change_def)

text \<open>Claim C8.  With the search box holding \<open>q\<close> (any text, the empty one included),
  \<^verbatim>\<open>search\<close> returns normally with no value and changes nothing of the world but the output,
  to which it adds the decorator's line and then exactly one report, the line
  \<^verbatim>\<open>Searching for: \<close> followed by \<open>q\<close>.  The widgets, and with them the state of every
  panel, are what they were; the panel object itself is only read.\<close>

theorem search_reports_query:
  assumes "search_entry self = Some e" and "content_of s e = Some q"
  shows "search self s
    = (Return (), s\<lparr>stdout := stdout s @ [''Action logged: search called'',
                                              ''Searching for: '' @ q]\<rparr>)"
proof -
  obtain wd where wd: "map_of (widgets s) e = Some wd" "content wd = q"
    using assms(2) by (auto simp: content_of_def lookup_def)
  show ?thesis
    using assms(1) wd
    by (simp add: search_def log_action_def search_body_def print_def andthen_def
        entry_get_def lookup_def)
qed

text \<open>The instance of claim C8 in the specification: \<^verbatim>\<open>cats\<close> typed into the search box of
  a freshly rendered header.\<close>

theorem search_reports_query_witness:
  "search_entry demo_header = Some 4
   \<and> content_of (type_text 4 ''cats'' demo_header_world) 4 = Some ''cats''
   \<and> search demo_header (type_text 4 ''cats'' demo_header_world)
      = (Return (), (type_text 4 ''cats'' demo_header_world)
           \<lparr>stdout := [''Action logged: search called'', ''Searching for: cats'']\<rparr>)"
proof -
  have p: "search_entry demo_header = Some 4" by (simp add: demo_header_def)
  have o: "stdout (type_text 4 ''cats'' demo_header_world) = []"
    by (simp add: type_text_def demo_header_world_def grow_def fresh_world_def)
  show ?thesis
    using search_reports_query [OF p demo_header_typed [of "''cats''"]]
    by (simp add: p demo_header_typed o)
qed

lemma cells_eq: "cells = [(0,0), (0,1), (0,2), (1,0), (1,1), (1,2), (2,0), (2,1), (2,2)]"
  by (simp add: cells_def range3)

lemma andthen_assoc: "andthen (andthen m f) k = andthen m (\<lambda>a. andthen (f a) k)"
  by (rule ext) (simp add: andthen_def split: prod.split result.split)

lemma foreach_append: "foreach (xs @ ys) f = andthen (foreach xs f) (\<lambda>_. foreach ys f)"
  by (induction xs) (simp_all add: andthen_assoc)

lemma foreach_pairs: "foreach (map (Pair x) ys) (\<lambda>(i, j). f i j) = foreach ys (f x)"
  by (induction ys) simp_all

lemma foreach_product:
  "foreach xs (\<lambda>i. foreach ys (\<lambda>j. f i j)) = foreach (List.product xs ys) (\<lambda>(i, j). f i j)"
  by (induction xs) (simp_all add: foreach_append foreach_pairs)

lemma make_tile_run:
  assumes "below (next_id s) (widgets s)" "grid self = Some g" "alive s g"
  shows "make_tile R self i j s =
     (Return (),
      s\<lparr>widgets := widgets s @ tile_widgets (next_id s) g i j (R (draws s) 100 1000000),
        next_id := next_id s + 4, draws := Suc (draws s)\<rparr>)"
  using assms
  by (simp add: make_tile_def tk_Frame_def tk_Label_def new_widget_def pack_def grid_at_def
      pack_propagate_def modify_def andthen_def lookup_def alive_def tile_widgets_def
      store_simps return_def randint_def)

lemma below_tile: "below n ws \<Longrightarrow> below (n + 4) (ws @ tile_widgets n g i j v)"
  by (auto simp: below_def tile_widgets_def)

lemma make_tiles_run:
  assumes "below (next_id s) (widgets s)" "grid self = Some g" "alive s g"
  shows "foreach ps (\<lambda>(i, j). make_tile R self i j) s =
     (Return (),
      s\<lparr>widgets := widgets s @ tiles_from R g (draws s) (next_id s) ps,
        next_id := next_id s + 4 * length ps, draws := draws s + length ps\<rparr>)"
  using assms
proof (induction ps arbitrary: s)
  case Nil
  then show ?case by (simp add: return_def)
next
  case (Cons p ps)
  obtain i j where p: "p = (i, j)" by (cases p)
  let ?s1 = "s\<lparr>widgets := widgets s @ tile_widgets (next_id s) g i j (R (draws s) 100 1000000),
        next_id := next_id s + 4, draws := Suc (draws s)\<rparr>"
  have b1: "below (next_id ?s1) (widgets ?s1)"
    using below_tile [OF Cons.prems(1)] by simp
  have a1: "alive ?s1 g"
    using Cons.prems(3) by (auto simp: alive_def lookup_def map_add_def split: option.splits)
  show ?case
    by (simp add: p andthen_def make_tile_run [OF Cons.prems] Cons.IH [OF b1 Cons.prems(2) a1])
qed

lemma is_under_ge:
  assumes "\<forall>(i, wd) \<in> set ws. parent wd < i"
  shows "is_under ws n a w \<Longrightarrow> a \<le> w"
proof (induction n arbitrary: w)
  case 0
  then show ?case by simp
next
  case (Suc n)
  show ?case
  proof (cases "w = a")
    case True
    then show ?thesis by simp
  next
    case False
    with Suc.prems obtain wd where wd: "map_of ws w = Some wd" "is_under ws n a (parent wd)"
      by (auto split: option.splits)
    from wd(1) have "(w, wd) \<in> set ws" by (rule map_of_SomeD)
    with assms have "parent wd < w" by auto
    moreover have "a \<le> parent wd" using wd(2) by (rule Suc.IH)
    ultimately show ?thesis by simp
  qed
qed

lemma is_under_self: "is_under ws n a a"
  by (cases n) simp_all

lemma store_ok_filter: "store_ok s \<Longrightarrow> store_ok (s\<lparr>widgets := filter P (widgets s)\<rparr>)"
  by (auto simp: store_ok_def)

lemma destroy_all:
  assumes "store_ok s" "\<forall>k \<in> set ks. g < k"
  shows "\<exists>Q. foreach ks destroy s = (Return (), s\<lparr>widgets := filter (\<lambda>(w, wd). Q w) (widgets s)\<rparr>)
           \<and> (\<forall>w. w \<le> g \<longrightarrow> Q w) \<and> (\<forall>k \<in> set ks. \<not> Q k)"
  using assms
proof (induction ks arbitrary: s)
  case Nil
  have "foreach [] destroy s = (Return (), s\<lparr>widgets := filter (\<lambda>(w, wd). True) (widgets s)\<rparr>)"
    by (simp add: return_def)
  then show ?case by (intro exI [of _ "\<lambda>_. True"]) simp
next
  case (Cons k ks)
  let ?Q1 = "\<lambda>w. \<not> is_under (widgets s) (length (widgets s)) k w"
  let ?s1 = "s\<lparr>widgets := filter (\<lambda>(w, wd). ?Q1 w) (widgets s)\<rparr>"
  have d: "destroy k s = (Return (), ?s1)" by (simp add: destroy_def)
  have ok1: "store_ok ?s1" by (rule store_ok_filter [OF Cons.prems(1)])
  have gk: "\<forall>k \<in> set ks. g < k" "g < k" using Cons.prems(2) by simp_all
  from Cons.IH [OF ok1 gk(1)] obtain Q2 where
    run: "foreach ks destroy ?s1 = (Return (), ?s1\<lparr>widgets := filter (\<lambda>(w, wd). Q2 w) (widgets ?s1)\<rparr>)"
    and keep: "\<forall>w. w \<le> g \<longrightarrow> Q2 w" and gone: "\<forall>k \<in> set ks. \<not> Q2 k"
    by blast
  have par: "\<forall>(i, wd) \<in> set (widgets s). parent wd < i"
    using Cons.prems(1) by (auto simp: store_ok_def)
  have keep1: "?Q1 w" if "w \<le> g" for w
  proof
    assume "is_under (widgets s) (length (widgets s)) k w"
    then have "k \<le> w" by (rule is_under_ge [OF par])
    with that gk(2) show False by simp
  qed
  have "foreach (k # ks) destroy s = foreach ks destroy ?s1"
    by (simp add: andthen_def d)
  also note run
  also have "?s1\<lparr>widgets := filter (\<lambda>(w, wd). Q2 w) (widgets ?s1)\<rparr>
      = s\<lparr>widgets := filter (\<lambda>(w, wd). ?Q1 w \<and> Q2 w) (widgets s)\<rparr>"
    by (simp add: case_prod_unfold conj_commute)
  finally have "foreach (k # ks) destroy s
      = (Return (), s\<lparr>widgets := filter (\<lambda>(w, wd). ?Q1 w \<and> Q2 w) (widgets s)\<rparr>)" .
  moreover have "\<forall>w. w \<le> g \<longrightarrow> ?Q1 w \<and> Q2 w" using keep keep1 by blast
  moreover have "\<forall>k' \<in> set (k # ks). \<not> (?Q1 k' \<and> Q2 k')"
    using gone is_under_self [of "widgets s" "length (widgets s)" k] by auto
  ultimately show ?case by (intro exI [of _ "\<lambda>w. ?Q1 w \<and> Q2 w"]) blast
qed

lemma tiles_from_ok:
  "g < n \<Longrightarrow> \<forall>(i, wd) \<in> set (tiles_from R g d n ps).
      parent wd < i \<and> n \<le> i \<and> i < n + 4 * length ps"
proof (induction ps arbitrary: n d)
  case Nil
  then show ?case by simp
next
  case (Cons p ps)
  obtain i j where p: "p = (i, j)" by (cases p)
  have "g < n + 4" using Cons.prems by simp
  from Cons.IH [OF this, of "Suc d"] Cons.prems show ?case
    by (auto simp: p tile_widgets_def)
qed

lemma no_old_children:
  assumes "below n ws" "\<forall>(i, wd) \<in> set ws. parent wd < i"
  shows "n \<le> k \<Longrightarrow> filter (\<lambda>(i, wd). parent wd = k) ws = []"
proof -
  assume k: "n \<le> k"
  have "parent wd \<noteq> k" if "(i, wd) \<in> set ws" for i wd
  proof -
    from that assms have "i < n" "parent wd < i" by (auto simp: below_def)
    with k show ?thesis by simp
  qed
  then show ?thesis by (auto simp: filter_empty_conv)
qed

lemma upt9: "[0..<9] = [0, 1, 2, 3, 4, 5, 6, 7, 8]"
  by code_simp

lemma grid_observed:
  assumes w: "widgets s' = ws @ tiles_from R g d n cells"
    and b: "below n ws" and p: "\<forall>(i, wd) \<in> set ws. parent wd < i"
    and c: "\<forall>(i, wd) \<in> set ws. parent wd \<noteq> g" and g: "g < n"
  shows "children_of s' g = [n, n + 4, n + 8, n + 12, n + 16, n + 20, n + 24, n + 28, n + 32]"
    and "map (position s') (children_of s' g)
      = [Some (0,0), Some (0,1), Some (0,2), Some (1,0), Some (1,1), Some (1,2),
         Some (2,0), Some (2,1), Some (2,2)]"
    and "tiles s' g = map (\<lambda>(k, i, j). Some \<lparr>row = i, column = j,
            title = ''Video '' @ str_int (i * 3 + j + 1),
            views = str_int (R (d + k) 100 1000000) @ '' views''\<rparr>) (zip [0..<9] cells)"
proof -
  have f: "filter (\<lambda>(i, wd). parent wd = g) ws = []"
    using c by (auto simp: filter_empty_conv)
  note old = no_old_children [OF b p] map_of_below [OF b]
  show ch: "children_of s' g = [n, n + 4, n + 8, n + 12, n + 16, n + 20, n + 24, n + 28, n + 32]"
    using g by (simp add: children_of_def w f cells_eq tile_widgets_def)
  have pos: "position s' (n + 4 * k) = Some (cells ! k)" if "k < 9" for k
  proof -
    from that consider "k = 0" | "k = 1" | "k = 2" | "k = 3" | "k = 4" | "k = 5" | "k = 6"
      | "k = 7" | "k = 8" by linarith
    then show ?thesis
      by cases
        (simp_all add: position_def lookup_def w old map_add_def cells_eq tile_widgets_def)
  qed
  show "map (position s') (children_of s' g)
      = [Some (0,0), Some (0,1), Some (0,2), Some (1,0), Some (1,1), Some (1,2),
         Some (2,0), Some (2,1), Some (2,2)]"
    using pos [of 0] pos [of 1] pos [of 2] pos [of 3] pos [of 4] pos [of 5] pos [of 6]
      pos [of 7] pos [of 8]
    by (simp add: ch cells_eq)
  have tile: "tile_of s' (n + 4 * k) = Some \<lparr>row = fst (cells ! k), column = snd (cells ! k),
            title = ''Video '' @ str_int (fst (cells ! k) * 3 + snd (cells ! k) + 1),
            views = str_int (R (d + k) 100 1000000) @ '' views''\<rparr>" if "k < 9" for k
  proof -
    from that consider "k = 0" | "k = 1" | "k = 2" | "k = 3" | "k = 4" | "k = 5" | "k = 6"
      | "k = 7" | "k = 8" by linarith
    then show ?thesis
      using g
      apply cases
              apply (simp_all add: tile_of_def text_of_def children_of_def lookup_def w old
          map_add_def cells_eq tile_widgets_def)
      apply (simp_all add: numeral_eq_Suc)
      done
  qed
  show "tiles s' g = map (\<lambda>(k, i, j). Some \<lparr>row = i, column = j,
            title = ''Video '' @ str_int (i * 3 + j + 1),
            views = str_int (R (d + k) 100 1000000) @ '' views''\<rparr>) (zip [0..<9] cells)"
    using tile [of 0] tile [of 1] tile [of 2] tile [of 3] tile [of 4] tile [of 5] tile [of 6]
      tile [of 7] tile [of 8]
    by (simp add: tiles_def ch cells_eq upt9)
qed

lemma grid_loops:
  "foreach (range 3) (\<lambda>i. foreach (range 3) (\<lambda>j. make_tile R self i j))
     = foreach cells (\<lambda>(i, j). make_tile R self i j)"
  by (simp add: foreach_product cells_def)

lemma cells_length: "length cells = 9"
  by (simp add: cells_eq)

lemma update_grid_run:
  assumes ok: "store_ok s" and gr: "grid self = Some g" and al: "alive s g"
  shows "\<exists>ws. update_grid R self s =
       (Return (),
        s\<lparr>stdout := stdout s @ [''Action logged: update_grid called''],
          widgets := ws @ tiles_from R g (draws s) (next_id s) cells,
          next_id := next_id s + 36, draws := draws s + 9\<rparr>)
     \<and> set ws \<subseteq> set (widgets s)
     \<and> (\<forall>(i, wd) \<in> set ws. parent wd \<noteq> g)
     \<and> (\<forall>k \<in> set (children_of s g). map_of ws k = None)
     \<and> (g \<noteq> root \<longrightarrow> map_of ws g \<noteq> None)"
proof -
  let ?s0 = "logged ''update_grid'' s"
  let ?ks = "children_of s g"
  have ok0: "store_ok ?s0" using ok by (simp add: store_ok_def logged_def)
  have above: "\<forall>k \<in> set ?ks. g < k" using ok by (auto dest: children_above)
  from destroy_all [OF ok0 above] obtain Q where
    run: "foreach ?ks destroy ?s0 = (Return (), ?s0\<lparr>widgets := filter (\<lambda>(w, wd). Q w) (widgets ?s0)\<rparr>)"
    and keep: "\<forall>w. w \<le> g \<longrightarrow> Q w" and gone: "\<forall>k \<in> set ?ks. \<not> Q k"
    by blast
  let ?ws = "filter (\<lambda>(w, wd). Q w) (widgets s)"
  let ?s1 = "?s0\<lparr>widgets := ?ws\<rparr>"
  have run': "foreach ?ks destroy ?s0 = (Return (), ?s1)"
    using run by (simp add: logged_def)
  have m: "map_of ?ws k = (if Q k then map_of (widgets s) k else None)" for k
    using map_of_filter [of Q "widgets s"] by (simp add: case_prod_unfold restrict_map_def)
  have al1: "alive ?s1 g"
    using al keep by (simp add: alive_def lookup_def m)
  have b1: "below (next_id ?s1) (widgets ?s1)"
    using store_ok_below [OF ok] by (auto simp: below_def logged_def)
  have kids: "winfo_children g ?s0 = (Return ?ks, ?s0)"
    using al by (simp add: winfo_children_def alive_def lookup_def logged_def children_of_def)
  have "update_grid R self s = update_grid_body R self ?s0"
    by (simp add: update_grid_def log_action_logged)
  also have "\<dots> = foreach cells (\<lambda>(i, j). make_tile R self i j) ?s1"
    by (simp add: update_grid_body_def gr andthen_def kids run' grid_loops)
  also have "\<dots> = (Return (),
        s\<lparr>stdout := stdout s @ [''Action logged: update_grid called''],
          widgets := ?ws @ tiles_from R g (draws s) (next_id s) cells,
          next_id := next_id s + 36, draws := draws s + 9\<rparr>)"
    by (subst make_tiles_run [OF b1 gr al1]) (simp add: logged_def cells_length)
  finally have "update_grid R self s = (Return (),
        s\<lparr>stdout := stdout s @ [''Action logged: update_grid called''],
          widgets := ?ws @ tiles_from R g (draws s) (next_id s) cells,
          next_id := next_id s + 36, draws := draws s + 9\<rparr>)" .
  moreover have "set ?ws \<subseteq> set (widgets s)" by auto
  moreover have "\<forall>(i, wd) \<in> set ?ws. parent wd \<noteq> g"
  proof clarify
    fix i wd assume "(i, wd) \<in> set ?ws" "g = parent wd"
    then have "i \<in> set ?ks" "Q i" by (auto simp: children_of_def intro!: image_eqI)
    with gone show False by blast
  qed
  moreover have "\<forall>k \<in> set ?ks. map_of ?ws k = None" using gone by (simp add: m)
  moreover have "g \<noteq> root \<longrightarrow> map_of ?ws g \<noteq> None"
    using al keep by (auto simp: m alive_def lookup_def)
  ultimately show ?thesis by blast
qed

text \<open>What one call of \<^verbatim>\<open>update_grid\<close> establishes.\<close>

lemma update_grid_step:
  fixes R :: generator and self :: video_grid and s :: world
  assumes ok: "store_ok s" and gr: "grid self = Some g" and al: "alive s g"
  defines "s' \<equiv> snd (update_grid R self s)"
  shows "fst (update_grid R self s) = Return ()"
    and "store_ok s'" and "alive s' g"
    and "\<forall>w \<in> set (children_of s g). \<not> alive s' w"
    and "children_of s' g = [next_id s, next_id s + 4, next_id s + 8, next_id s + 12,
          next_id s + 16, next_id s + 20, next_id s + 24, next_id s + 28, next_id s + 32]"
    and "map (position s') (children_of s' g)
      = [Some (0,0), Some (0,1), Some (0,2), Some (1,0), Some (1,1), Some (1,2),
         Some (2,0), Some (2,1), Some (2,2)]"
    and "tiles s' g = map (\<lambda>(k, i, j). Some \<lparr>row = i, column = j,
            title = ''Video '' @ str_int (i * 3 + j + 1),
            views = str_int (R (draws s + k) 100 1000000) @ '' views''\<rparr>) (zip [0..<9] cells)"
    and "next_id s' = next_id s + 36" and "draws s' = draws s + 9"
proof -
  let ?n = "next_id s"
  let ?new = "tiles_from R g (draws s) ?n cells"
  from update_grid_run [OF ok gr al, of R] obtain ws where
    run: "update_grid R self s =
       (Return (),
        s\<lparr>stdout := stdout s @ [''Action logged: update_grid called''],
          widgets := ws @ ?new, next_id := ?n + 36, draws := draws s + 9\<rparr>)"
    and sub: "set ws \<subseteq> set (widgets s)"
    and nog: "\<forall>(i, wd) \<in> set ws. parent wd \<noteq> g"
    and gone: "\<forall>k \<in> set (children_of s g). map_of ws k = None"
    and there: "g \<noteq> root \<longrightarrow> map_of ws g \<noteq> None"
    by blast
  have w: "widgets s' = ws @ ?new" by (simp add: s'_def run)
  have b: "below ?n ws" using store_ok_below [OF ok] sub by (auto simp: below_def)
  have p: "\<forall>(i, wd) \<in> set ws. parent wd < i" using ok sub by (auto simp: store_ok_def)
  have g: "g < ?n" using ok al by (rule alive_below)
  note new = tiles_from_ok [OF g, of R "draws s" cells]
  show "fst (update_grid R self s) = Return ()" by (simp add: run)
  show "next_id s' = ?n + 36" "draws s' = draws s + 9" by (simp_all add: s'_def run)
  show "store_ok s'"
    using b p new by (fastforce simp: s'_def run store_ok_def below_def cells_eq)
  show "alive s' g"
    using there by (auto simp: alive_def lookup_def w map_add_def split: option.splits)
  show "\<forall>w \<in> set (children_of s g). \<not> alive s' w"
  proof
    fix k assume k: "k \<in> set (children_of s g)"
    then have "g < k" "k < ?n"
      using ok store_ok_below [OF ok] by (auto dest: children_above children_below)
    moreover have "map_of ?new k = None"
    proof (rule ccontr)
      assume "map_of ?new k \<noteq> None"
      then obtain wd where "(k, wd) \<in> set ?new" by (auto dest: map_of_SomeD)
      with new have "?n \<le> k" by blast
      with \<open>k < ?n\<close> show False by simp
    qed
    ultimately show "\<not> alive s' k"
      using gone k by (simp add: alive_def lookup_def w map_add_def root_def)
  qed
  note obs = grid_observed [OF w b p nog g]
  show "children_of s' g = [?n, ?n + 4, ?n + 8, ?n + 12, ?n + 16, ?n + 20, ?n + 24, ?n + 28,
      ?n + 32]" by (rule obs(1))
  show "map (position s') (children_of s' g)
      = [Some (0,0), Some (0,1), Some (0,2), Some (1,0), Some (1,1), Some (1,2),
         Some (2,0), Some (2,1), Some (2,2)]" by (rule obs(2))
  show "tiles s' g = map (\<lambda>(k, i, j). Some \<lparr>row = i, column = j,
            title = ''Video '' @ str_int (i * 3 + j + 1),
            views = str_int (R (draws s + k) 100 1000000) @ '' views''\<rparr>) (zip [0..<9] cells)"
    by (rule obs(3))
qed

lemma demo_grid_facts:
  "store_ok demo_grid_world" "grid demo_grid = Some 1" "alive demo_grid_world 1"
  by (simp_all add: store_ok_def demo_grid_world_def grow_def grid_frame_def fresh_world_def
      demo_grid_def alive_def lookup_def root_def)

lemma demo_generator_spec: "randint_spec demo_generator"
  by (simp add: randint_spec_def demo_generator_def)

lemma update_grid_times_ok:
  assumes "store_ok s" "grid self = Some g" "alive s g"
  shows "fst (update_grid_times m R self s) = Return ()
    \<and> store_ok (snd (update_grid_times m R self s))
    \<and> alive (snd (update_grid_times m R self s)) g"
  using assms
proof (induction m arbitrary: s)
  case 0
  then show ?case by (simp add: update_grid_times_def return_def)
next
  case (Suc m)
  note st = update_grid_step [OF Suc.prems, of R]
  obtain s1 where one: "update_grid R self s = (Return (), s1)"
    using st(1) by (cases "update_grid R self s") simp
  have s1: "s1 = snd (update_grid R self s)" by (simp add: one)
  have "update_grid_times (Suc m) R self s = update_grid_times m R self s1"
    by (simp add: update_grid_times_def andthen_def one)
  moreover have "store_ok s1" "alive s1 g" unfolding s1 by (rule st(2), rule st(3))
  ultimately show ?case using Suc.IH [of s1] Suc.prems(2) by simp
qed

text \<open>Claim C1.  Take a well-formed store in which the grid frame \<open>g\<close> of the panel is alive,
  and let \<^verbatim>\<open>update_grid\<close> have been called any number \<open>m\<close> of times.  One more call returns
  normally; every widget that was attached to the grid before the call is gone after it; and
  the grid then holds exactly nine widgets, placed at the grid positions (0,0), (0,1), (0,2),
  (1,0), ..., (2,2) in this order: three rows by three columns.\<close>

theorem update_grid_nine_tiles:
  assumes "store_ok s" and "grid self = Some g" and "alive s g"
  shows "fst (update_grid R self (snd (update_grid_times m R self s))) = Return ()
    \<and> (\<forall>w \<in> set (children_of (snd (update_grid_times m R self s)) g).
          \<not> alive (snd (update_grid R self (snd (update_grid_times m R self s)))) w)
    \<and> length (children_of (snd (update_grid R self (snd (update_grid_times m R self s)))) g) = 9
    \<and> map (position (snd (update_grid R self (snd (update_grid_times m R self s)))))
          (children_of (snd (update_grid R self (snd (update_grid_times m R self s)))) g)
        = [Some (0,0), Some (0,1), Some (0,2), Some (1,0), Some (1,1), Some (1,2),
           Some (2,0), Some (2,1), Some (2,2)]"
proof -
  let ?sm = "snd (update_grid_times m R self s)"
  from update_grid_times_ok [OF assms, of m R]
  have ok: "store_ok ?sm" and al: "alive ?sm g" by simp_all
  note st = update_grid_step [OF ok assms(2) al, of R]
  show ?thesis
    using st(1) st(4) st(6) by (simp add: st(5))
qed

text \<open>Claim C1 on the empty grid frame of a starting program, after two earlier calls.\<close>

theorem update_grid_nine_tiles_witness:
  "store_ok demo_grid_world \<and> grid demo_grid = Some 1 \<and> alive demo_grid_world 1
   \<and> length (children_of (snd (update_grid demo_generator demo_grid
        (snd (update_grid_times 2 demo_generator demo_grid demo_grid_world)))) 1) = 9
   \<and> map (position (snd (update_grid demo_generator demo_grid
              (snd (update_grid_times 2 demo_generator demo_grid demo_grid_world)))))
        (children_of (snd (update_grid demo_generator demo_grid
              (snd (update_grid_times 2 demo_generator demo_grid demo_grid_world)))) 1)
      = [Some (0,0), Some (0,1), Some (0,2), Some (1,0), Some (1,1), Some (1,2),
         Some (2,0), Some (2,1), Some (2,2)]"
  using update_grid_nine_tiles [OF demo_grid_facts, of demo_generator 2] demo_grid_facts
  by simp

text \<open>Claim C5.  In the same situation as for C1, and with a generator that keeps the
  promise of \<^verbatim>\<open>random.randint\<close>, the tiles after a call are, cell by cell in the order of
  the loops: row \<open>i\<close>, column \<open>j\<close>, the title \<^verbatim>\<open>Video \<close> followed by the decimal text of
  \<open>i * 3 + j + 1\<close>, and the view label the decimal text of the number drawn for that tile
  followed by \<^verbatim>\<open> views\<close>.  The titles are \<^verbatim>\<open>Video 1\<close> to \<^verbatim>\<open>Video 9\<close>.  Every number drawn,
  in this and in every other rebuild, lies between 100 and 1000000.\<close>

theorem update_grid_titles_and_views:
  assumes "store_ok s" and "grid self = Some g" and "alive s g" and "randint_spec R"
  shows "tiles (snd (update_grid R self (snd (update_grid_times m R self s)))) g
      = map (\<lambda>(k, i, j). Some \<lparr>row = i, column = j,
              title = ''Video '' @ str_int (i * 3 + j + 1),
              views = str_int (R (draws (snd (update_grid_times m R self s)) + k) 100 1000000)
                        @ '' views''\<rparr>)
          (zip [0..<9] (List.product (range 3) (range 3)))
    \<and> map (map_option title)
          (tiles (snd (update_grid R self (snd (update_grid_times m R self s)))) g)
        = [Some ''Video 1'', Some ''Video 2'', Some ''Video 3'', Some ''Video 4'',
           Some ''Video 5'', Some ''Video 6'', Some ''Video 7'', Some ''Video 8'',
           Some ''Video 9'']
    \<and> (\<forall>k. 100 \<le> R k 100 1000000 \<and> R k 100 1000000 \<le> 1000000)"
proof -
  let ?sm = "snd (update_grid_times m R self s)"
  from update_grid_times_ok [OF assms(1-3), of m R]
  have ok: "store_ok ?sm" and al: "alive ?sm g" by simp_all
  note st = update_grid_step [OF ok assms(2) al, of R]
  have t: "tiles (snd (update_grid R self ?sm)) g
      = map (\<lambda>(k, i, j). Some \<lparr>row = i, column = j,
              title = ''Video '' @ str_int (i * 3 + j + 1),
              views = str_int (R (draws ?sm + k) 100 1000000) @ '' views''\<rparr>)
          (zip [0..<9] (List.product (range 3) (range 3)))"
    using st(7) by (simp add: cells_def)
  have names: "map (map_option title) (tiles (snd (update_grid R self ?sm)) g)
        = [Some ''Video 1'', Some ''Video 2'', Some ''Video 3'', Some ''Video 4'',
           Some ''Video 5'', Some ''Video 6'', Some ''Video 7'', Some ''Video 8'',
           Some ''Video 9'']"
    unfolding st(7)
    by (simp add: cells_eq upt9 str_int_def str_nat.simps digit_def)
  have "100 \<le> R k 100 1000000 \<and> R k 100 1000000 \<le> 1000000" for k
    using assms(4) by (simp add: randint_spec_def)
  with t names show ?thesis by blast
qed

text \<open>Claim C5 on the empty grid frame of a starting program, with the example generator:
  the first rebuild shows 100 to 108 views.\<close>

theorem update_grid_titles_and_views_witness:
  "store_ok demo_grid_world \<and> grid demo_grid = Some 1 \<and> alive demo_grid_world 1
   \<and> randint_spec demo_generator
   \<and> map (map_option title) (tiles (snd (update_grid demo_generator demo_grid demo_grid_world)) 1)
      = [Some ''Video 1'', Some ''Video 2'', Some ''Video 3'', Some ''Video 4'',
         Some ''Video 5'', Some ''Video 6'', Some ''Video 7'', Some ''Video 8'',
         Some ''Video 9'']
   \<and> map (map_option views) (tiles (snd (update_grid demo_generator demo_grid demo_grid_world)) 1)
      = [Some ''100 views'', Some ''101 views'', Some ''102 views'', Some ''103 views'',
         Some ''104 views'', Some ''105 views'', Some ''106 views'', Some ''107 views'',
         Some ''108 views'']"
proof -
  have d: "draws demo_grid_world = 0"
    by (simp add: demo_grid_world_def grow_def fresh_world_def)
  have z: "snd (update_grid_times 0 demo_generator demo_grid demo_grid_world) = demo_grid_world"
    by (simp add: update_grid_times_def return_def)
  have v: "map (\<lambda>k. str_int (demo_generator k 100 1000000)) [0, 1, 2, 3, 4, 5, 6, 7, 8]
      = [''100'', ''101'', ''102'', ''103'', ''104'', ''105'', ''106'', ''107'', ''108'']"
    by (simp add: demo_generator_def str_int_def str_nat.simps digit_def)
  show ?thesis
    using update_grid_titles_and_views [OF demo_grid_facts demo_generator_spec, of 0]
      demo_grid_facts demo_generator_spec v
    by (simp add: z d range3 upt9 str_int_def str_nat.simps digit_def)
qed

lemma below_grow:
  assumes "below (next_id s) (widgets s)" "\<forall>(i, wd) \<in> set xs. i < next_id s + k"
  shows "below (next_id (grow xs k s)) (widgets (grow xs k s))"
  using assms by (auto simp: below_def grow_def)

lemma store_ok_grow':
  assumes "store_ok s" "\<forall>(i, wd) \<in> set xs. parent wd < i \<and> i < next_id s + k"
  shows "store_ok (grow xs k s)"
  using assms by (fastforce simp: store_ok_def grow_def)

lemma alive_root: "alive s root"
  by (simp add: alive_def)

lemma andthen_new_widget:
  "alive s p \<Longrightarrow> andthen (new_widget cls p opts) k s =
     k (next_id s)
       (s\<lparr>widgets := widgets s @
             [(next_id s, \<lparr>wclass = cls, parent = p, config = opts,
                 geometry = Unmanaged, propagate = True, content = []\<rparr>)],
          next_id := Suc (next_id s)\<rparr>)"
  by (simp add: andthen_def new_widget_def)

lemma andthen_modify:
  "lookup s w \<noteq> None \<Longrightarrow> andthen (modify w f) k s =
     k () (s\<lparr>widgets := change w f (widgets s)\<rparr>)"
  by (auto simp: andthen_def modify_def)

lemma VideoGrid_create_widget_run:
  assumes ok: "store_ok s" and al: "alive s (master self)"
  shows "VideoGrid_create_widget R self s =
     (Return (self\<lparr>grid := Some (next_id s)\<rparr>),
      s\<lparr>stdout := stdout s @ [''Action logged: update_grid called''],
        widgets := widgets s @ grid_frame (next_id s) (master self)
                     # tiles_from R (next_id s) (draws s) (next_id s + 1) cells,
        next_id := next_id s + 37, draws := draws s + 9\<rparr>)"
proof -
  let ?n = "next_id s"
  let ?self = "self\<lparr>grid := Some ?n\<rparr>"
  let ?s1 = "grow [grid_frame ?n (master self)] 1 s"
  let ?s2 = "logged ''update_grid'' ?s1"
  have b: "below ?n (widgets s)" using ok by (rule store_ok_below)
  have m: "master self < ?n" using ok al by (rule alive_below)
  let ?sA = "s\<lparr>widgets := widgets s @
             [(?n, \<lparr>wclass = Frame, parent = master self, config = [],
                 geometry = Unmanaged, propagate = True, content = []\<rparr>)],
          next_id := Suc ?n\<rparr>"
  have st1: "andthen (tk_Frame (master self) []) k s = k ?n ?sA" for k :: "wid \<Rightarrow> video_grid action"
    unfolding tk_Frame_def by (rule andthen_new_widget [OF al])
  have lk: "lookup ?sA ?n \<noteq> None"
    using b by (simp add: lookup_def store_simps)
  have eq: "?sA\<lparr>widgets := change ?n (\<lambda>wd. wd\<lparr>geometry := Pack [(''expand'', Flag True),
      (''fill'', tk_BOTH)]\<rparr>) (widgets ?sA)\<rparr> = ?s1"
    using b by (simp add: grow_def grid_frame_def store_simps)
  have st2: "andthen (pack ?n [(''expand'', Flag True), (''fill'', tk_BOTH)]) k ?sA = k () ?s1"
    for k :: "unit \<Rightarrow> video_grid action"
    unfolding pack_def andthen_modify [OF lk] eq ..
  have pre: "VideoGrid_create_widget R self s
      = andthen (update_grid R ?self) (\<lambda>_. return ?self) ?s1"
    unfolding VideoGrid_create_widget_def st1 st2 ..
  have gr: "grid ?self = Some ?n" by simp
  have b2: "below (next_id ?s2) (widgets ?s2)"
    using b by (auto simp: below_def grow_def logged_def grid_frame_def)
  have a2: "alive ?s2 ?n"
    using b by (simp add: alive_def lookup_def grow_def logged_def grid_frame_def store_simps)
  have kids: "children_of ?s2 ?n = []"
    using m no_children_fresh [OF ok, of ?n]
    by (simp add: children_of_def grow_def logged_def grid_frame_def)
  have w: "winfo_children ?n ?s2 = (Return [], ?s2)"
    using a2 kids by (simp add: winfo_children_def)
  have "update_grid R ?self ?s1 = update_grid_body R ?self ?s2"
    by (simp add: update_grid_def log_action_logged)
  also have "\<dots> = foreach cells (\<lambda>(i, j). make_tile R ?self i j) ?s2"
    unfolding update_grid_body_def grid_loops
    using w by (simp add: andthen_def return_def)
  also have "\<dots> = (Return (),
      s\<lparr>stdout := stdout s @ [''Action logged: update_grid called''],
        widgets := widgets s @ grid_frame ?n (master self)
                     # tiles_from R ?n (draws s) (?n + 1) cells,
        next_id := ?n + 37, draws := draws s + 9\<rparr>)"
    by (subst make_tiles_run [OF b2 gr a2]) (simp add: logged_def grow_def cells_length)
  finally show ?thesis
    by (simp add: pre andthen_def return_def)
qed

lemma header_ok:
  "store_ok s \<Longrightarrow> m < next_id s \<Longrightarrow> store_ok (grow (header_widgets (next_id s) m) 5 s)"
  by (rule store_ok_grow') (simp_all add: header_widgets_def)

lemma sidebar_ok:
  "store_ok s \<Longrightarrow> m < next_id s \<Longrightarrow> store_ok (grow (sidebar_widgets (next_id s) m) 5 s)"
  by (rule store_ok_grow') (simp_all add: sidebar_widgets_def sidebar_button_def)

lemma player_ok:
  "store_ok s \<Longrightarrow> m < next_id s \<Longrightarrow> store_ok (grow (player_widgets (next_id s) m) 5 s)"
  by (rule store_ok_grow') (simp_all add: player_widgets_def)

lemma grid_ok:
  assumes "store_ok s" "m < next_id s"
  shows "store_ok (s\<lparr>stdout := out,
        widgets := widgets s @ grid_frame (next_id s) m
                     # tiles_from R (next_id s) d (next_id s + 1) cells,
        next_id := next_id s + 37, draws := d'\<rparr>)"
proof -
  have "\<forall>(i, wd) \<in> set (tiles_from R (next_id s) d (next_id s + 1) cells).
      parent wd < i \<and> next_id s + 1 \<le> i \<and> i < next_id s + 1 + 4 * length cells"
    by (rule tiles_from_ok) simp
  then show ?thesis
    using assms by (fastforce simp: store_ok_def grid_frame_def cells_length)
qed

text \<open>Claim C6.  Starting the program in the fresh world constructs the five panels on the
  root window and renders them; the run returns normally.  Its final world is the one reached
  by running the five \<^verbatim>\<open>create_widget\<close> methods, each once, in the order Header, Sidebar,
  Video Grid, Video Player, Comments, from the world in which the window has its title and
  size.  Accordingly the store holds, in creation order, the widgets of the header, of the
  sidebar, of the grid (its frame and nine tiles), of the player and of the comments panel;
  the root window has exactly five children, the top frames of the five panels in that order;
  and the decorator's line of \<^verbatim>\<open>update_grid\<close> is the only output.\<close>

theorem startup_renders_in_order:
  "fst (YouTubeApp R fresh_world)
     = Return \<lparr>app_header = \<lparr>master = root, search_entry = Some 4\<rparr>,
         app_sidebar = \<lparr>master = root\<rparr>,
         app_video_grid = \<lparr>master = root, grid = Some 11\<rparr>,
         app_video_player = \<lparr>master = root\<rparr>,
         app_comments = \<lparr>master = root, comment_entry = Some 55, comments_list = Some 57\<rparr>\<rparr>
   \<and> snd (YouTubeApp R fresh_world)
     = snd (Comments_create_widget (Comments root)
        (snd (VideoPlayer_create_widget (VideoPlayer root)
          (snd (VideoGrid_create_widget R (VideoGrid root)
            (snd (Sidebar_create_widget (Sidebar root)
              (snd (Header_create_widget (Header root) titled_world)))))))))
   \<and> widgets (snd (YouTubeApp R fresh_world))
     = header_widgets 1 root @ sidebar_widgets 6 root
       @ (grid_frame 11 root # tiles_from R 11 0 12 cells)
       @ player_widgets 48 root
       @ (comments_widgets 53 root
          @ comment_widgets 58 57 ''User1'' ''Great video!''
          @ comment_widgets 61 57 ''User2'' ''Very informative, thanks for sharing!'')
   \<and> children_of (snd (YouTubeApp R fresh_world)) root = [1, 6, 11, 48, 53]
   \<and> stdout (snd (YouTubeApp R fresh_world)) = [''Action logged: update_grid called'']"
proof -
  let ?s0 = titled_world
  let ?s1 = "grow (header_widgets 1 root) 5 ?s0"
  let ?s2 = "grow (sidebar_widgets 6 root) 5 ?s1"
  let ?s3 = "?s2\<lparr>stdout := stdout ?s2 @ [''Action logged: update_grid called''],
        widgets := widgets ?s2 @ grid_frame 11 root # tiles_from R 11 (draws ?s2) 12 cells,
        next_id := 48, draws := draws ?s2 + 9\<rparr>"
  let ?s4 = "grow (player_widgets 48 root) 5 ?s3"
  let ?s5 = "Comments_rendered (Comments root) ?s4"
  have n: "next_id ?s0 = 1" "next_id ?s1 = 6" "next_id ?s2 = 11" "next_id ?s3 = 48"
    "next_id ?s4 = 53"
    by (simp_all add: titled_world_def fresh_world_def grow_def)
  have m: "master (Header root) = root" "master (Sidebar root) = root"
    "master (VideoGrid root) = root" "master (VideoPlayer root) = root"
    "master (Comments root) = root"
    by (simp_all add: Header_def Sidebar_def VideoGrid_def VideoPlayer_def Comments_def
        UIComponent_def)
  have ok0: "store_ok ?s0" by (simp add: store_ok_def titled_world_def fresh_world_def)
  have ok1: "store_ok ?s1" using header_ok [OF ok0, of root, unfolded n] by (simp add: root_def)
  have ok2: "store_ok ?s2" using sidebar_ok [OF ok1, of root, unfolded n] by (simp add: root_def)
  have ok3: "store_ok ?s3" using grid_ok [OF ok2, of root, unfolded n] by (simp add: root_def)
  have ok4: "store_ok ?s4" using player_ok [OF ok3, of root, unfolded n] by (simp add: root_def)
  have H: "Header_create_widget (Header root) ?s0
      = (Return \<lparr>master = root, search_entry = Some 4\<rparr>, ?s1)"
    using Header_create_widget_run [OF store_ok_below [OF ok0], of "Header root", unfolded m n]
    by (simp add: alive_root Header_def)
  have S: "Sidebar_create_widget (Sidebar root) ?s1 = (Return \<lparr>master = root\<rparr>, ?s2)"
    using Sidebar_create_widget_run [OF store_ok_below [OF ok1], of "Sidebar root", unfolded m n]
    by (simp add: alive_root Sidebar_def UIComponent_def)
  have G: "VideoGrid_create_widget R (VideoGrid root) ?s2
      = (Return \<lparr>master = root, grid = Some 11\<rparr>, ?s3)"
    using VideoGrid_create_widget_run [OF ok2, of "VideoGrid root" R, unfolded m n]
    by (simp add: alive_root VideoGrid_def)
  have P: "VideoPlayer_create_widget (VideoPlayer root) ?s3 = (Return \<lparr>master = root\<rparr>, ?s4)"
    using VideoPlayer_create_widget_run [OF store_ok_below [OF ok3], of "VideoPlayer root",
        unfolded m n]
    by (simp add: alive_root VideoPlayer_def UIComponent_def)
  have C: "Comments_create_widget (Comments root) ?s4
      = (Return \<lparr>master = root, comment_entry = Some 55, comments_list = Some 57\<rparr>, ?s5)"
    using Comments_create_widget_rendered [OF ok4, of "Comments root", unfolded m n]
    by (simp add: alive_root Comments_def)
  have start: "YouTubeApp R fresh_world
      = create_ui R \<lparr>app_header = Header root, app_sidebar = Sidebar root,
          app_video_grid = VideoGrid root, app_video_player = VideoPlayer root,
          app_comments = Comments root\<rparr> ?s0"
    by (simp add: YouTubeApp_def andthen_def set_title_def set_geometry_def titled_world_def)
  have run: "YouTubeApp R fresh_world
      = (Return \<lparr>app_header = \<lparr>master = root, search_entry = Some 4\<rparr>,
           app_sidebar = \<lparr>master = root\<rparr>,
           app_video_grid = \<lparr>master = root, grid = Some 11\<rparr>,
           app_video_player = \<lparr>master = root\<rparr>,
           app_comments = \<lparr>master = root, comment_entry = Some 55,
             comments_list = Some 57\<rparr>\<rparr>, ?s5)"
    by (simp only: start create_ui_def andthen_def youtube_app.select_convs H S G P C
        prod.case result.case return_def)
  have w: "widgets ?s5 = header_widgets 1 root @ sidebar_widgets 6 root
       @ (grid_frame 11 root # tiles_from R 11 0 12 cells)
       @ player_widgets 48 root
       @ (comments_widgets 53 root
          @ comment_widgets 58 57 ''User1'' ''Great video!''
          @ comment_widgets 61 57 ''User2'' ''Very informative, thanks for sharing!'')"
    by (simp add: Comments_rendered_def grow_def titled_world_def fresh_world_def m)
  have kids: "children_of ?s5 root = [1, 6, 11, 48, 53]"
    unfolding children_of_def w
    by (simp add: root_def header_widgets_def sidebar_widgets_def sidebar_button_def
        grid_frame_def cells_eq tile_widgets_def player_widgets_def comments_widgets_def
        comment_widgets_def)
  have out: "stdout ?s5 = [''Action logged: update_grid called'']"
    by (simp add: Comments_rendered_def grow_def titled_world_def fresh_world_def)
  show ?thesis
    unfolding run fst_conv snd_conv H S G P C w kids out by simp
qed

lemma comment_list_grown:
  assumes g: "grown s xs s'" and b: "below (next_id s) (widgets s)"
    and nl: "\<forall>(i, wd) \<in> set xs. parent wd \<noteq> l \<and> parent wd \<notin> set (children_of s l)"
  shows "comment_list s' l = comment_list s l"
proof -
  have c: "children_of s' l = children_of s l"
    using nl by (auto simp: grown_children [OF g] filter_empty_conv)
  have "entry_of s' f = entry_of s f" if "f \<in> set (children_of s l)" for f
    using nl that by (intro grown_entry_of [OF g b]) auto
  then show ?thesis by (simp add: comment_list_def c)
qed

lemma Comments_rendered_grown:
  "grown s (comments_widgets (next_id s) (master self)
            @ comment_widgets (next_id s + 5) (next_id s + 4) ''User1'' ''Great video!''
            @ comment_widgets (next_id s + 8) (next_id s + 4) ''User2''
                ''Very informative, thanks for sharing!'')
     (Comments_rendered self s)"
  by (simp add: grown_def Comments_rendered_def comments_widgets_def comment_widgets_def)

text \<open>Claim C10.  Two calls of \<^verbatim>\<open>create_widget\<close> on the same comments panel, from a
  well-formed store with a live master, both return normally.  The second call builds a new
  input box and a new list container, different from those of the first call, and gives the
  new container the two sample entries; the container of the first call is still alive and
  still holds its two sample entries, and both panel frames are attached to the master.  So
  the store has received the sample pair twice, four insertions in all, while the panel
  object afterwards refers to the second container only.  In contrast, two calls of
  \<^verbatim>\<open>update_grid\<close> leave nine tiles in the grid, not eighteen.\<close>

theorem create_widget_twice_seeds_twice:
  assumes "store_ok s" and "alive s (master self)"
  shows "\<exists>c1 s1 c2 s2 e1 l1 e2 l2.
      Comments_create_widget self s = (Return c1, s1)
    \<and> Comments_create_widget c1 s1 = (Return c2, s2)
    \<and> comment_entry c1 = Some e1 \<and> comments_list c1 = Some l1
    \<and> comment_entry c2 = Some e2 \<and> comments_list c2 = Some l2
    \<and> e1 \<noteq> e2 \<and> l1 \<noteq> l2
    \<and> alive s2 l1 \<and> alive s2 l2
    \<and> comment_list s2 l1 = [Some seed1, Some seed2]
    \<and> comment_list s2 l2 = [Some seed1, Some seed2]
    \<and> comment_list s2 l1 @ comment_list s2 l2 = [Some seed1, Some seed2, Some seed1, Some seed2]
    \<and> children_of s2 (master self)
        = children_of s (master self) @ [next_id s, next_id s1]
    \<and> (\<forall>s0 vg g R. store_ok s0 \<and> grid vg = Some g \<and> alive s0 g \<longrightarrow>
          length (children_of (snd (update_grid R vg (snd (update_grid R vg s0)))) g) = 9)"
proof -
  let ?n = "next_id s"
  let ?c1 = "self\<lparr>comment_entry := Some (?n + 2), comments_list := Some (?n + 4)\<rparr>"
  let ?s1 = "Comments_rendered self s"
  let ?n1 = "next_id ?s1"
  let ?c2 = "?c1\<lparr>comment_entry := Some (?n1 + 2), comments_list := Some (?n1 + 4)\<rparr>"
  let ?s2 = "Comments_rendered ?c1 ?s1"
  note r1 = Comments_rendered_facts [OF assms]
  have n1: "?n1 = ?n + 11" by (simp add: Comments_rendered_def)
  have m: "master self < ?n" using assms by (rule alive_below)
  have a1: "alive ?s1 (master ?c1)"
    using assms(2)
    by (auto simp: alive_def lookup_def Comments_rendered_def map_add_def split: option.splits)
  note r2 = Comments_rendered_facts [OF r1(1) a1]
  have run1: "Comments_create_widget self s = (Return ?c1, ?s1)"
    by (rule Comments_create_widget_rendered [OF assms])
  have run2: "Comments_create_widget ?c1 ?s1 = (Return ?c2, ?s2)"
    by (rule Comments_create_widget_rendered [OF r1(1) a1])
  have g2: "grown ?s1 (comments_widgets ?n1 (master ?c1)
            @ comment_widgets (?n1 + 5) (?n1 + 4) ''User1'' ''Great video!''
            @ comment_widgets (?n1 + 8) (?n1 + 4) ''User2''
                ''Very informative, thanks for sharing!'') ?s2"
    by (rule Comments_rendered_grown)
  have b1: "below ?n1 (widgets ?s1)" using r1(1) by (rule store_ok_below)
  have kid: "?n + 4 < k \<and> k < ?n1" if "k \<in> set (children_of ?s1 (?n + 4))" for k
    using that r1(1) b1 by (auto dest: children_above children_below)
  have old: "comment_list ?s2 (?n + 4) = comment_list ?s1 (?n + 4)"
  proof (rule comment_list_grown [OF g2 b1], clarify)
    fix i wd
    assume "(i, wd) \<in> set (comments_widgets ?n1 (master ?c1)
            @ comment_widgets (?n1 + 5) (?n1 + 4) ''User1'' ''Great video!''
            @ comment_widgets (?n1 + 8) (?n1 + 4) ''User2''
                ''Very informative, thanks for sharing!'')"
    then have "parent wd = master self \<or> ?n1 \<le> parent wd"
      by (auto simp: comments_widgets_def comment_widgets_def)
    then show "parent wd \<noteq> ?n + 4 \<and> parent wd \<notin> set (children_of ?s1 (?n + 4))"
      using m n1 kid [of "parent wd"] by auto
  qed
  have "lookup ?s2 (?n + 4) = lookup ?s1 (?n + 4)"
    by (rule grown_lookup [OF g2]) (simp add: n1)
  then have al1: "alive ?s2 (?n + 4)"
    using r1(2) by (simp add: alive_def)
  have c1: "children_of ?s1 (master self) = children_of s (master self) @ [?n]"
    unfolding grown_children [OF Comments_rendered_grown]
    using m by (simp add: comments_widgets_def comment_widgets_def)
  have c2: "children_of ?s2 (master self) = children_of ?s1 (master self) @ [?n1]"
    unfolding grown_children [OF g2]
    using m n1 by (simp add: comments_widgets_def comment_widgets_def)
  have grid9: "length (children_of (snd (update_grid R vg (snd (update_grid R vg s0)))) g) = 9"
    if "store_ok s0" "grid vg = Some g" "alive s0 g" for s0 vg g R
  proof -
    note st = update_grid_step [OF that, of R]
    note st2 = update_grid_step [OF st(2) that(2) st(3), of R]
    show ?thesis by (simp add: st2(5))
  qed
  have "comment_entry ?c1 = Some (?n + 2)" "comments_list ?c1 = Some (?n + 4)"
    "comment_entry ?c2 = Some (?n1 + 2)" "comments_list ?c2 = Some (?n1 + 4)"
    "?n + 2 \<noteq> ?n1 + 2" "?n + 4 \<noteq> ?n1 + 4"
    by (simp_all add: n1)
  moreover have "comment_list ?s2 (?n + 4) = [Some seed1, Some seed2]"
    unfolding old by (rule r1(4))
  moreover have "comment_list ?s2 (?n1 + 4) = [Some seed1, Some seed2]" by (rule r2(4))
  moreover have "children_of ?s2 (master self) = children_of s (master self) @ [?n, ?n1]"
    unfolding c2 c1 by simp
  moreover note run1 run2 al1 r2(2)
  ultimately show ?thesis
    using grid9
    by (intro exI [of _ ?c1] exI [of _ ?s1] exI [of _ ?c2] exI [of _ ?s2]
        exI [of _ "?n + 2"] exI [of _ "?n + 4"] exI [of _ "?n1 + 2"] exI [of _ "?n1 + 4"])
      simp
qed

text \<open>Claim C10 at the start of the program, with the contrast on the example grid.\<close>

theorem create_widget_twice_seeds_twice_witness:
  "store_ok fresh_world \<and> alive fresh_world (master (Comments root))
   \<and> store_ok demo_grid_world \<and> grid demo_grid = Some 1 \<and> alive demo_grid_world 1
   \<and> (\<exists>c1 s1 c2 s2 l1 l2.
        Comments_create_widget (Comments root) fresh_world = (Return c1, s1)
      \<and> Comments_create_widget c1 s1 = (Return c2, s2)
      \<and> comments_list c1 = Some l1 \<and> comments_list c2 = Some l2 \<and> l1 \<noteq> l2
      \<and> comment_list s2 l1 @ comment_list s2 l2
          = [Some seed1, Some seed2, Some seed1, Some seed2])
   \<and> length (children_of (snd (update_grid demo_generator demo_grid
        (snd (update_grid demo_generator demo_grid demo_grid_world)))) 1) = 9"
proof -
  have h: "store_ok fresh_world" "alive fresh_world (master (Comments root))"
    by (simp_all add: store_ok_def fresh_world_def alive_def Comments_def)
  from create_widget_twice_seeds_twice [OF h] obtain c1 s1 c2 s2 l1 l2 where
    "Comments_create_widget (Comments root) fresh_world = (Return c1, s1)"
    "Comments_create_widget c1 s1 = (Return c2, s2)"
    "comments_list c1 = Some l1" "comments_list c2 = Some l2" "l1 \<noteq> l2"
    "comment_list s2 l1 @ comment_list s2 l2 = [Some seed1, Some seed2, Some seed1, Some seed2]"
    and grid: "\<forall>s0 vg g R. store_ok s0 \<and> grid vg = Some g \<and> alive s0 g \<longrightarrow>
          length (children_of (snd (update_grid R vg (snd (update_grid R vg s0)))) g) = 9"
    by blast
  moreover have "length (children_of (snd (update_grid demo_generator demo_grid
        (snd (update_grid demo_generator demo_grid demo_grid_world)))) 1) = 9"
    using grid demo_grid_facts by blast
  ultimately show ?thesis using h demo_grid_facts by blast
qed












end
